theory Spec2Isabelle
  imports Complex_Main
begin

section \<open>JavaScript values used by the service\<close>

text \<open>
  A JavaScript string is a sequence of UTF-16 code units; each unit is a natural number
  here. The labels of \<^verbatim>\<open>src/server.js\<close> hold accented letters and emoji, which are
  written by their code units; the ASCII part of a literal is written as text.

  Arithmetic on JavaScript numbers is modelled exactly, over the reals (route durations,
  distances, time offsets) and over the integers (weather codes, array indices).
\<close>

type_synonym jsstring = "nat list"

definition ascii :: "string \<Rightarrow> jsstring" where
  "ascii s = map of_char s"

text \<open>
  The decimal digits of a natural number, most significant first, and
  \<^verbatim>\<open>Number.prototype.toString\<close> on an integer, as the template literal
  \<^verbatim>\<open>`Clima (${code})`\<close> applies it. JavaScript prints an integer with all its digits
  when its magnitude is at most \<open>2\<^sup>5\<^sup>3\<close>; beyond that it prints the shortest digits
  that identify the floating-point number, padded with zeros, and from \<open>10\<^sup>2\<^sup>1\<close> on
  exponent notation. \<open>Number_toString\<close> is JavaScript's conversion on the integers of
  magnitude at most \<open>2\<^sup>5\<^sup>3\<close> only, and is used on no others below.
\<close>

fun digits_of :: "nat \<Rightarrow> jsstring" where
  "digits_of n = (if n < 10 then [48 + n] else digits_of (n div 10) @ [48 + n mod 10])"

declare digits_of.simps [simp del]

definition Number_toString :: "int \<Rightarrow> jsstring" where
  "Number_toString n = (if n < 0 then 45 # digits_of (nat (- n)) else digits_of (nat n))"

text \<open>
  Reading a decimal numeral back, to say which number a printed label contains, and what
  it is to be the decimal numeral of a number: a non-empty string of the digits
  \<open>0\<close> to \<open>9\<close>, without a leading zero unless it is \<open>0\<close> itself, whose value is
  the number.
\<close>

definition digits_value :: "jsstring \<Rightarrow> nat" where
  "digits_value ds = foldl (\<lambda>acc d. 10 * acc + (d - 48)) 0 ds"

definition numeral_value :: "jsstring \<Rightarrow> int" where
  "numeral_value s =
     (case s of [] \<Rightarrow> 0
      | c # cs \<Rightarrow> if c = 45 then - int (digits_value cs) else int (digits_value s))"

definition decimal_numeral :: "jsstring \<Rightarrow> nat \<Rightarrow> bool" where
  "decimal_numeral ds n \<longleftrightarrow>
     ds \<noteq> [] \<and> (\<forall>d \<in> set ds. 48 \<le> d \<and> d \<le> 57) \<and> (hd ds = 48 \<longrightarrow> ds = [48]) \<and>
     digits_value ds = n"

section \<open>Weather code translator\<close>

text \<open>
  \<^verbatim>\<open>_translateWMO\<close> of \<^verbatim>\<open>src/server.js\<close> (lines 271-279): an object literal
  keyed by weather code, read with \<^verbatim>\<open>table[code] || `Clima (${code})`\<close>. The
  object is an association list; \<open>||\<close> takes its right operand when the left one is
  undefined (no such key) or the empty string.
\<close>

definition wmo_table :: "(int \<times> jsstring) list" where
  "wmo_table =
    [(0, ascii ''C'' @ [0x00E9] @ ascii ''u Limpo '' @ [0x2600, 0xFE0F]),
     (1, ascii ''Predom. Limpo '' @ [0xD83C, 0xDF24, 0xFE0F]),
     (2, ascii ''Parcial. Nublado '' @ [0x26C5]),
     (3, ascii ''Encoberto '' @ [0x2601, 0xFE0F]),
     (45, ascii ''Nevoeiro '' @ [0xD83C, 0xDF2B, 0xFE0F]),
     (48, ascii ''Nevoeiro c/ Geada '' @ [0xD83C, 0xDF2B, 0xFE0F]),
     (51, ascii ''Garoa Leve '' @ [0xD83C, 0xDF27, 0xFE0F]),
     (53, ascii ''Garoa Moderada '' @ [0xD83C, 0xDF27, 0xFE0F]),
     (55, ascii ''Garoa Densa '' @ [0xD83C, 0xDF27, 0xFE0F]),
     (61, ascii ''Chuva Fraca '' @ [0x2614]),
     (63, ascii ''Chuva Moderada '' @ [0x2614]),
     (65, ascii ''Chuva Forte '' @ [0x26C8, 0xFE0F]),
     (80, ascii ''Pancadas de Chuva '' @ [0xD83C, 0xDF26, 0xFE0F]),
     (81, ascii ''Pancadas Fortes '' @ [0x26C8, 0xFE0F]),
     (95, ascii ''Tempestade '' @ [0x26A1]),
     (96, ascii ''Tempestade c/ Granizo '' @ [0x2744, 0xFE0F, 0x26A1])]"

definition known_codes :: "int list" where
  "known_codes = [0, 1, 2, 3, 45, 48, 51, 53, 55, 61, 63, 65, 80, 81, 95, 96]"

definition generic_label :: "int \<Rightarrow> jsstring" where
  "generic_label code = ascii ''Clima ('' @ Number_toString code @ ascii '')''"

definition translateWMO :: "int \<Rightarrow> jsstring" where
  "translateWMO code =
     (case map_of wmo_table code of
        None \<Rightarrow> generic_label code
      | Some label \<Rightarrow> if label = [] then generic_label code else label)"

section \<open>Constants of the service\<close>

text \<open>
  The constants the constructor sets (lines 49-50): the sampling interval in seconds and
  the cache's time to live in milliseconds.
\<close>

definition CHECKPOINT_INTERVAL :: real where
  "CHECKPOINT_INTERVAL = 3600"

definition CACHE_TTL :: int where
  "CACHE_TTL = 3600 * 1000"

section \<open>Route resolution cascade\<close>

text \<open>
  A point of a route geometry is a GeoJSON pair \<^verbatim>\<open>[lng, lat]\<close>. \<^verbatim>\<open>routeData\<close> is the
  object the three provider adapters of \<^verbatim>\<open>src/server.js\<close> return (lines 121-155). A
  field that a provider may leave out, or fill with something that is not a number or not
  an array, is an option: \<open>None\<close> stands for \<^verbatim>\<open>undefined\<close>, \<^verbatim>\<open>null\<close> and
  \<^verbatim>\<open>NaN\<close>.
\<close>

type_synonym point = "real \<times> real"

record routeData =
  duration :: "real option"
  distance :: "real option"
  path :: "point list option"
  provider :: jsstring

text \<open>
  What \<^verbatim>\<open>axios.get\<close> gives an adapter: the request is rejected (time-out after 8000 ms,
  network error, error status), or it answers, and the answer holds a first route
  (\<^verbatim>\<open>routes[0]\<close>, for GraphHopper \<^verbatim>\<open>paths[0]\<close>) or none. \<open>raw_duration\<close> is the
  route's \<^verbatim>\<open>duration\<close> in seconds, for GraphHopper its \<^verbatim>\<open>time\<close> in milliseconds;
  \<open>raw_geometry\<close> is \<open>None\<close> when the object that holds the coordinates
  (\<^verbatim>\<open>geometry\<close>, \<^verbatim>\<open>points\<close>) is missing, so that reading its coordinates throws.
\<close>

record raw_route =
  raw_duration :: "real option"
  raw_distance :: "real option"
  raw_geometry :: "point list option option"

datatype http_result = Rejected | Response "raw_route option"

datatype provider_id = OSRM | GraphHopper | Mapbox

datatype route_error =
  RequestFailed | RouteNotFound | TypeError | CredentialMissing | RouteUnavailable

text \<open>
  The service's credentials, read from the environment by the constructor (lines 53-54).
  \<^verbatim>\<open>!this.GRAPHHOPPER_KEY\<close> holds when the variable is unset or the empty string.
\<close>

record config =
  GRAPHHOPPER_KEY :: "jsstring option"
  MAPBOX_TOKEN :: "jsstring option"

definition falsy :: "jsstring option \<Rightarrow> bool" where
  "falsy v = (case v of None \<Rightarrow> True | Some s \<Rightarrow> s = [])"

definition credential :: "jsstring option \<Rightarrow> jsstring" where
  "credential v = (case v of None \<Rightarrow> ascii ''undefined'' | Some s \<Rightarrow> s)"

text \<open>
  The HTTP client is a parameter: \<open>axios provider key start end\<close> is the outcome of the
  request the adapter of \<open>provider\<close> sends for the two endpoints, \<open>key\<close> being the
  credential written into the URL (empty for OSRM, which takes none).
\<close>

type_synonym 'c http_client = "provider_id \<Rightarrow> jsstring \<Rightarrow> 'c \<Rightarrow> 'c \<Rightarrow> http_result"

definition getOSRMRoute :: "'c http_client \<Rightarrow> 'c \<Rightarrow> 'c \<Rightarrow> route_error + routeData" where
  "getOSRMRoute axios start end' =
     (case axios OSRM [] start end' of
        Rejected \<Rightarrow> Inl RequestFailed
      | Response None \<Rightarrow> Inl RouteNotFound
      | Response (Some r) \<Rightarrow>
          (case raw_geometry r of
             None \<Rightarrow> Inl TypeError
           | Some coordinates \<Rightarrow>
               Inr \<lparr>duration = raw_duration r, distance = raw_distance r,
                    path = coordinates, provider = ascii ''OSRM''\<rparr>))"

definition getGraphHopperRoute ::
  "config \<Rightarrow> 'c http_client \<Rightarrow> 'c \<Rightarrow> 'c \<Rightarrow> route_error + routeData" where
  "getGraphHopperRoute cfg axios start end' =
     (case axios GraphHopper (credential (GRAPHHOPPER_KEY cfg)) start end' of
        Rejected \<Rightarrow> Inl RequestFailed
      | Response None \<Rightarrow> Inl TypeError
      | Response (Some r) \<Rightarrow>
          (case raw_geometry r of
             None \<Rightarrow> Inl TypeError
           | Some coordinates \<Rightarrow>
               Inr \<lparr>duration = map_option (\<lambda>t. t / 1000) (raw_duration r),
                    distance = raw_distance r,
                    path = coordinates, provider = ascii ''GraphHopper''\<rparr>))"

definition getMapboxRoute ::
  "config \<Rightarrow> 'c http_client \<Rightarrow> 'c \<Rightarrow> 'c \<Rightarrow> route_error + routeData" where
  "getMapboxRoute cfg axios start end' =
     (case axios Mapbox (credential (MAPBOX_TOKEN cfg)) start end' of
        Rejected \<Rightarrow> Inl RequestFailed
      | Response None \<Rightarrow> Inl TypeError
      | Response (Some r) \<Rightarrow>
          (case raw_geometry r of
             None \<Rightarrow> Inl TypeError
           | Some coordinates \<Rightarrow>
               Inr \<lparr>duration = raw_duration r, distance = raw_distance r,
                    path = coordinates, provider = ascii ''Mapbox''\<rparr>))"

text \<open>
  \<^verbatim>\<open>_getRouteWithFallback\<close> (lines 94-119): three \<^verbatim>\<open>try\<close> blocks in sequence. A
  block returns its adapter's route; an exception inside a block, the adapter's or the
  one thrown for a missing credential, is caught and the next block runs; the last
  \<^verbatim>\<open>catch\<close> throws the error of the whole cascade. The result is paired with the list
  of adapters that were invoked, in the order of their invocation.
\<close>

definition getRouteWithFallback ::
  "config \<Rightarrow> 'c http_client \<Rightarrow> 'c \<Rightarrow> 'c \<Rightarrow> provider_id list \<times> (route_error + routeData)" where
  "getRouteWithFallback cfg axios start end' =
     (case getOSRMRoute axios start end' of
        Inr r \<Rightarrow> ([OSRM], Inr r)
      | Inl e1 \<Rightarrow>
          (case (if falsy (GRAPHHOPPER_KEY cfg) then ([], Inl CredentialMissing)
                 else ([GraphHopper], getGraphHopperRoute cfg axios start end')) of
             (log2, Inr r) \<Rightarrow> (OSRM # log2, Inr r)
           | (log2, Inl e2) \<Rightarrow>
               (case (if falsy (MAPBOX_TOKEN cfg) then ([], Inl CredentialMissing)
                      else ([Mapbox], getMapboxRoute cfg axios start end')) of
                  (log3, Inr r) \<Rightarrow> (OSRM # log2 @ log3, Inr r)
                | (log3, Inl e3) \<Rightarrow> (OSRM # log2 @ log3, Inl RouteUnavailable))))"

text \<open>
  The vocabulary of the claims about the cascade: whether a provider is configured, and
  what its adapter answers when invoked.
\<close>

definition configured :: "config \<Rightarrow> provider_id \<Rightarrow> bool" where
  "configured cfg p =
     (case p of OSRM \<Rightarrow> True
      | GraphHopper \<Rightarrow> \<not> falsy (GRAPHHOPPER_KEY cfg)
      | Mapbox \<Rightarrow> \<not> falsy (MAPBOX_TOKEN cfg))"

definition adapter ::
  "config \<Rightarrow> 'c http_client \<Rightarrow> 'c \<Rightarrow> 'c \<Rightarrow> provider_id \<Rightarrow> route_error + routeData" where
  "adapter cfg axios start end' p =
     (case p of OSRM \<Rightarrow> getOSRMRoute axios start end'
      | GraphHopper \<Rightarrow> getGraphHopperRoute cfg axios start end'
      | Mapbox \<Rightarrow> getMapboxRoute cfg axios start end')"

definition provider_name :: "provider_id \<Rightarrow> jsstring" where
  "provider_name p =
     (case p of OSRM \<Rightarrow> ascii ''OSRM'' | GraphHopper \<Rightarrow> ascii ''GraphHopper''
      | Mapbox \<Rightarrow> ascii ''Mapbox'')"

section \<open>Checkpoint interpolator\<close>

text \<open>
  A temperature is a number or the string \<^verbatim>\<open>"--"\<close>. \<open>reading\<close> is the object
  \<^verbatim>\<open>_getWeather\<close> resolves to (its fields \<^verbatim>\<open>temp\<close> and \<^verbatim>\<open>code\<close>), \<open>weather\<close>
  the one stored in a checkpoint. The synthetic checkpoint of an empty route has no
  \<^verbatim>\<open>lat\<close> and no \<^verbatim>\<open>lng\<close>.

  A \<^verbatim>\<open>Date\<close> is its time value, a whole number of milliseconds since the epoch, or
  \<open>None\<close> for an invalid \<^verbatim>\<open>Date\<close>. \<^verbatim>\<open>new Date(v)\<close> on a number \<open>v\<close> is
  ECMAScript's \<^verbatim>\<open>TimeClip\<close>: invalid when the magnitude of \<open>v\<close> exceeds 8.64e15,
  and \<open>v\<close> with its fraction dropped (rounded towards zero) otherwise. The field
  \<open>formattedTime\<close> of a checkpoint holds the \<^verbatim>\<open>Date\<close> that the source renders there
  with \<^verbatim>\<open>toLocaleTimeString\<close>. The departure time handed to the loop is a valid
  \<^verbatim>\<open>Date\<close>, given by its time value: \<^verbatim>\<open>getRouteForecast\<close> calls \<^verbatim>\<open>toISOString\<close>
  on it first (line 66), which throws on an invalid one.
\<close>

definition js_trunc :: "real \<Rightarrow> int" where
  "js_trunc v = (if 0 \<le> v then \<lfloor>v\<rfloor> else \<lceil>v\<rceil>)"

definition new_Date :: "real \<Rightarrow> int option" where
  "new_Date v = (if \<bar>v\<bar> \<le> 8640000000000000 then Some (js_trunc v) else None)"

datatype temperature = Temp real | Dashes

record reading =
  reading_temp :: temperature
  reading_code :: int

record weather =
  temp :: temperature
  condition :: jsstring

record checkpoint =
  formattedTime :: "int option"
  lat :: "real option"
  lng :: "real option"
  locationName :: jsstring
  distanceFromStart :: int
  weather :: weather

text \<open>
  The two collaborators of the loop are parameters: \<open>getWeather lat lng date\<close> stands
  for \<^verbatim>\<open>_getWeather\<close> and \<open>getCityName lat lng\<close> for \<^verbatim>\<open>_getCityName\<close>, both of
  which go to the network; the date \<open>getWeather\<close> takes is the time value of a valid
  \<^verbatim>\<open>Date\<close>. \<open>None\<close> is a rejected promise, which the \<^verbatim>\<open>try\<close> block of lines
  246-249 catches: the assignments not yet made keep their defaults. On an invalid
  \<^verbatim>\<open>Date\<close> the first statement of \<^verbatim>\<open>_getWeather\<close>, \<^verbatim>\<open>date.toISOString()\<close> (line
  202, outside its \<^verbatim>\<open>try\<close>), throws, so that neither collaborator is asked.
\<close>

type_synonym weather_client = "real \<Rightarrow> real \<Rightarrow> int \<Rightarrow> reading option"
type_synonym geocoder = "real \<Rightarrow> real \<Rightarrow> jsstring option"

definition enrich ::
  "weather_client \<Rightarrow> geocoder \<Rightarrow> real \<Rightarrow> real \<Rightarrow> int option \<Rightarrow> reading \<times> jsstring" where
  "enrich getWeather getCityName lat' lng' futureDate =
     (case futureDate of
        None \<Rightarrow> (\<lparr>reading_temp = Dashes, reading_code = 0\<rparr>, ascii ''Estrada'')
      | Some date \<Rightarrow>
          (case getWeather lat' lng' date of
             None \<Rightarrow> (\<lparr>reading_temp = Dashes, reading_code = 0\<rparr>, ascii ''Estrada'')
           | Some w \<Rightarrow>
               (case getCityName lat' lng' of
                  None \<Rightarrow> (w, ascii ''Estrada'')
                | Some cityName \<Rightarrow> (w, cityName))))"

text \<open>
  Lines 235-237: the index into the path, with its two clamps. \<open>len\<close> is
  \<^verbatim>\<open>pathPoints.length\<close>.
\<close>

definition pathIndex :: "real \<Rightarrow> nat \<Rightarrow> int" where
  "pathIndex progress len =
     (let i0 = \<lfloor>progress * (real len - 1)\<rfloor>;
          i1 = (if i0 < 0 then 0 else i0)
      in if i1 \<ge> int len then int len - 1 else i1)"

text \<open>Reading an array at an index: \<^verbatim>\<open>undefined\<close> outside the array.\<close>

definition at_index :: "'a list \<Rightarrow> int \<Rightarrow> 'a option" where
  "at_index xs i = (if 0 \<le> i \<and> i < int (length xs) then Some (xs ! nat i) else None)"

text \<open>
  Lines 233-260, one pass of the loop body up to the \<^verbatim>\<open>push\<close>: the checkpoint for the
  offset \<open>timeOffset\<close>, or \<open>None\<close> when the path has no point at the index and the
  loop breaks (line 240).
\<close>

definition make_checkpoint ::
  "weather_client \<Rightarrow> geocoder \<Rightarrow> int \<Rightarrow> real \<Rightarrow> real \<Rightarrow> point list \<Rightarrow> real \<Rightarrow>
     checkpoint option" where
  "make_checkpoint getWeather getCityName departureTime totalDuration totalDistance
       pathPoints timeOffset =
     (let futureDate = new_Date (real_of_int departureTime + timeOffset * 1000);
          progress = (if totalDuration > 0 then timeOffset / totalDuration else 0)
      in case at_index pathPoints (pathIndex progress (length pathPoints)) of
           None \<Rightarrow> None
         | Some (lng', lat') \<Rightarrow>
             (case enrich getWeather getCityName lat' lng' futureDate of
                (w, cityName) \<Rightarrow>
                  Some \<lparr>formattedTime = futureDate, lat = Some lat', lng = Some lng',
                        locationName = cityName,
                        distanceFromStart = \<lfloor>totalDistance * progress / 1000\<rfloor>,
                        weather = \<lparr>temp = reading_temp w,
                                   condition = translateWMO (reading_code w)\<rparr>\<rparr>))"

text \<open>Lines 263-266: the next offset, the last step clamped to the total duration.\<close>

definition next_offset :: "real \<Rightarrow> real \<Rightarrow> real" where
  "next_offset totalDuration timeOffset =
     (let t = timeOffset + CHECKPOINT_INTERVAL
      in if t > totalDuration \<and> t - CHECKPOINT_INTERVAL < totalDuration
         then totalDuration else t)"

text \<open>
  The \<^verbatim>\<open>while\<close> loop of lines 232-267, with its state: the offset and the checkpoints
  pushed so far.
\<close>

function checkpoint_loop ::
  "weather_client \<Rightarrow> geocoder \<Rightarrow> int \<Rightarrow> real \<Rightarrow> real \<Rightarrow> point list \<Rightarrow> real \<Rightarrow>
     checkpoint list \<Rightarrow> checkpoint list" where
  "checkpoint_loop getWeather getCityName departureTime totalDuration totalDistance
       pathPoints timeOffset checkpoints =
     (if timeOffset \<le> totalDuration then
        (case make_checkpoint getWeather getCityName departureTime totalDuration
                totalDistance pathPoints timeOffset of
           None \<Rightarrow> checkpoints
         | Some cp \<Rightarrow>
             if timeOffset \<ge> totalDuration then checkpoints @ [cp]
             else checkpoint_loop getWeather getCityName departureTime totalDuration
                    totalDistance pathPoints (next_offset totalDuration timeOffset)
                    (checkpoints @ [cp]))
      else checkpoints)"
  by pat_completeness auto

text \<open>
  The loop ends: the number of whole intervals left before the total duration, plus one
  while the offset is still short of it, falls with every pass.
\<close>

definition passes_left :: "real \<Rightarrow> real \<Rightarrow> nat" where
  "passes_left totalDuration timeOffset =
     nat \<lceil>(totalDuration - timeOffset) / 3600\<rceil> + (if timeOffset < totalDuration then 1 else 0)"

lemma passes_left_next_offset:
  assumes "timeOffset < totalDuration"
  shows "passes_left totalDuration (next_offset totalDuration timeOffset)
           < passes_left totalDuration timeOffset"
proof (cases "timeOffset + 3600 > totalDuration")
  case True
  then show ?thesis
    using assms by (simp add: passes_left_def next_offset_def CHECKPOINT_INTERVAL_def)
next
  case False
  have c: "\<lceil>(totalDuration - (timeOffset + 3600)) / 3600\<rceil>
             = \<lceil>(totalDuration - timeOffset) / 3600\<rceil> - 1"
  proof -
    have eq: "(totalDuration - (timeOffset + 3600)) / 3600 = (totalDuration - timeOffset) / 3600 - 1"
      by (simp add: field_simps)
    show ?thesis by (simp only: eq ceiling_diff_one)
  qed
  have "0 < (totalDuration - timeOffset) / 3600" using assms by simp
  then have "1 \<le> \<lceil>(totalDuration - timeOffset) / 3600\<rceil>" by linarith
  with c False show ?thesis
    by (simp add: passes_left_def next_offset_def CHECKPOINT_INTERVAL_def Let_def)
qed

termination checkpoint_loop
  by (relation "measure (\<lambda>(gw, gc, dep, D, dist, pts, t, cps). passes_left D t)")
     (simp_all add: passes_left_next_offset)

declare checkpoint_loop.simps [simp del]

text \<open>
  \<^verbatim>\<open>_processCheckpoints\<close> (lines 215-269). The guard of line 216 answers a missing
  route, a missing path and an empty path with one synthetic checkpoint; otherwise the
  loop runs from offset 0 with \<^verbatim>\<open>routeData.duration || 0\<close> and
  \<^verbatim>\<open>routeData.distance || 0\<close>.
\<close>

definition synthetic_checkpoint :: "int \<Rightarrow> checkpoint" where
  "synthetic_checkpoint departureTime =
     \<lparr>formattedTime = Some departureTime, lat = None, lng = None,
      locationName = ascii ''Local de Partida'', distanceFromStart = 0,
      weather = \<lparr>temp = Dashes,
                 condition = ascii ''Dados indispon'' @ [0x00ED] @ ascii ''veis''\<rparr>\<rparr>"

definition or_zero :: "real option \<Rightarrow> real" where
  "or_zero v = (case v of None \<Rightarrow> 0 | Some x \<Rightarrow> x)"

definition processCheckpoints ::
  "weather_client \<Rightarrow> geocoder \<Rightarrow> routeData option \<Rightarrow> int \<Rightarrow> checkpoint list" where
  "processCheckpoints getWeather getCityName routeData departureTime =
     (case routeData of
        None \<Rightarrow> [synthetic_checkpoint departureTime]
      | Some r \<Rightarrow>
          (case path r of
             None \<Rightarrow> [synthetic_checkpoint departureTime]
           | Some pathPoints \<Rightarrow>
               if pathPoints = [] then [synthetic_checkpoint departureTime]
               else checkpoint_loop getWeather getCityName departureTime
                      (or_zero (duration r)) (or_zero (distance r)) pathPoints 0 []))"

text \<open>
  The values the loop's counter \<^verbatim>\<open>timeOffset\<close> takes, pass by pass: the loop above
  with everything but its control left out. It serves to state what the loop returns.
\<close>

function offsets :: "real \<Rightarrow> real \<Rightarrow> real list" where
  "offsets totalDuration timeOffset =
     (if timeOffset \<le> totalDuration then
        (if timeOffset \<ge> totalDuration then [timeOffset]
         else timeOffset # offsets totalDuration (next_offset totalDuration timeOffset))
      else [])"
  by pat_completeness auto

termination offsets
  by (relation "measure (\<lambda>(D, t). passes_left D t)") (simp_all add: passes_left_next_offset)

declare offsets.simps [simp del]

section \<open>Request normalization\<close>






definition pad :: "nat \<Rightarrow> nat \<Rightarrow> jsstring" where
  "pad width n = replicate (width - length (digits_of n)) 48 @ digits_of n"

text \<open>
  The date of a day number counted from 1970-01-01, as ECMAScript defines it:
  \<open>DayFromYear y\<close> is the day number of the first of January of year \<open>y\<close>, the
  year of a day is the largest \<open>y\<close> whose \<open>DayFromYear\<close> is not after the day, and
  month and day of the month are read from the day within the year by the table of month
  lengths, shifted by one day after February in a leap year. \<open>YearFromDay\<close> finds the
  year by counting up from a year that is not after the day's.
\<close>

definition DayFromYear :: "int \<Rightarrow> int" where
  "DayFromYear y = 365 * (y - 1970) + (y - 1969) div 4 - (y - 1901) div 100 + (y - 1601) div 400"

definition InLeapYear :: "int \<Rightarrow> int" where
  "InLeapYear y = (if y mod 4 = 0 \<and> (y mod 100 \<noteq> 0 \<or> y mod 400 = 0) then 1 else 0)"

lemma div_step:
  fixes a n :: int
  assumes "1 < n"
  shows "(a + 1) div n = a div n + (if (a + 1) mod n = 0 then 1 else 0)"
proof -
  let ?q = "a div n" and ?r = "a mod n"
  have a: "a = n * ?q + ?r" by simp
  have r: "0 \<le> ?r" "?r < n" using assms by simp_all
  show ?thesis
  proof (cases "?r + 1 < n")
    case True
    have eq: "a + 1 = n * ?q + (?r + 1)" using a by linarith
    have "0 \<le> ?r + 1" using r by simp
    from int_div_pos_eq [OF eq this True] int_mod_pos_eq [OF eq this True] r
    show ?thesis by simp
  next
    case False
    with r have r1: "?r = n - 1" by simp
    have eq: "a + 1 = n * (?q + 1) + 0"
      using a r1 by (simp add: algebra_simps)
    from int_div_pos_eq [OF eq] int_mod_pos_eq [OF eq] assms
    show ?thesis by simp
  qed
qed

lemma leap_moduli:
  fixes y :: int
  shows "(y + 1 - 1969) mod 4 = 0 \<longleftrightarrow> y mod 4 = 0"
    and "(y + 1 - 1901) mod 100 = 0 \<longleftrightarrow> y mod 100 = 0"
    and "(y + 1 - 1601) mod 400 = 0 \<longleftrightarrow> y mod 400 = 0"
    and "y mod 400 = 0 \<Longrightarrow> y mod 100 = 0"
    and "y mod 100 = 0 \<Longrightarrow> y mod 4 = 0"
proof -
  have e: "y + 1 - 1969 = y - 1968" "y + 1 - 1901 = y - 1900" "y + 1 - 1601 = y - 1600"
    by simp_all
  have "(4::int) dvd 1968" "(100::int) dvd 1900" "(400::int) dvd 1600" by simp_all
  then show "(y + 1 - 1969) mod 4 = 0 \<longleftrightarrow> y mod 4 = 0"
    and "(y + 1 - 1901) mod 100 = 0 \<longleftrightarrow> y mod 100 = 0"
    and "(y + 1 - 1601) mod 400 = 0 \<longleftrightarrow> y mod 400 = 0"
    unfolding e by (simp_all only: mod_eq_0_iff_dvd dvd_diff_left_iff)
  have "(100::int) dvd 400" "(4::int) dvd 100" by simp_all
  then show "y mod 400 = 0 \<Longrightarrow> y mod 100 = 0" and "y mod 100 = 0 \<Longrightarrow> y mod 4 = 0"
    unfolding mod_eq_0_iff_dvd by (blast intro: dvd_trans)+
qed

lemma DayFromYear_Suc: "DayFromYear (y + 1) = DayFromYear y + 365 + InLeapYear y"
proof -
  have e: "y + 1 - 1969 = y - 1969 + 1" "y + 1 - 1901 = y - 1901 + 1"
    "y + 1 - 1601 = y - 1601 + 1" "y + 1 - 1970 = y - 1970 + 1"
    by simp_all
  have "(y - 1969 + 1) div 4 = (y - 1969) div 4 + (if (y - 1969 + 1) mod 4 = 0 then 1 else 0)"
    by (rule div_step) simp
  then have d4: "(y + 1 - 1969) div 4 = (y - 1969) div 4 + (if y mod 4 = 0 then 1 else 0)"
    by (simp only: e [symmetric] leap_moduli(1))
  have "(y - 1901 + 1) div 100 =
      (y - 1901) div 100 + (if (y - 1901 + 1) mod 100 = 0 then 1 else 0)"
    by (rule div_step) simp
  then have d100: "(y + 1 - 1901) div 100 = (y - 1901) div 100 + (if y mod 100 = 0 then 1 else 0)"
    by (simp only: e [symmetric] leap_moduli(2))
  have "(y - 1601 + 1) div 400 =
      (y - 1601) div 400 + (if (y - 1601 + 1) mod 400 = 0 then 1 else 0)"
    by (rule div_step) simp
  then have d400: "(y + 1 - 1601) div 400 = (y - 1601) div 400 + (if y mod 400 = 0 then 1 else 0)"
    by (simp only: e [symmetric] leap_moduli(3))
  have lin: "365 * (y + 1 - 1970) = 365 * (y - 1970) + 365" by simp
  consider (a) "y mod 4 \<noteq> 0" | (b) "y mod 4 = 0" "y mod 100 \<noteq> 0"
    | (c) "y mod 100 = 0" "y mod 400 \<noteq> 0" | (d) "y mod 400 = 0"
    by argo
  then show ?thesis
  proof cases
    case a
    with leap_moduli(4,5) [of y] have "y mod 100 \<noteq> 0" "y mod 400 \<noteq> 0" by auto
    with a show ?thesis
      unfolding DayFromYear_def InLeapYear_def d4 d100 d400 lin by (simp only: if_False if_True) simp
  next
    case b
    with leap_moduli(4) [of y] have "y mod 400 \<noteq> 0" by auto
    with b show ?thesis
      unfolding DayFromYear_def InLeapYear_def d4 d100 d400 lin by simp
  next
    case c
    with leap_moduli(5) [of y] have "y mod 4 = 0" by auto
    with c show ?thesis
      unfolding DayFromYear_def InLeapYear_def d4 d100 d400 lin by simp
  next
    case d
    with leap_moduli(4,5) [of y] have "y mod 100 = 0" "y mod 4 = 0" by auto
    with d show ?thesis
      unfolding DayFromYear_def InLeapYear_def d4 d100 d400 lin by simp
  qed
qed

function year_from :: "int \<Rightarrow> int \<Rightarrow> int" where
  "year_from day y = (if DayFromYear (y + 1) \<le> day then year_from day (y + 1) else y)"
  by pat_completeness auto

termination year_from
proof (relation "measure (\<lambda>(day, y). nat (day - DayFromYear y))")
  show "wf (measure (\<lambda>(day, y). nat (day - DayFromYear y)))" by simp
next
  fix day y :: int
  assume "DayFromYear (y + 1) \<le> day"
  moreover have "0 \<le> InLeapYear y" by (simp add: InLeapYear_def)
  ultimately show "((day, y + 1), (day, y)) \<in> measure (\<lambda>(day, y). nat (day - DayFromYear y))"
    by (simp add: DayFromYear_Suc)
qed

declare year_from.simps [simp del]

definition YearFromDay :: "int \<Rightarrow> int" where
  "YearFromDay day = year_from day (1970 + (if 0 \<le> day then day div 366 else day div 365))"

definition MonthFromDay :: "int \<Rightarrow> int \<Rightarrow> int" where
  "MonthFromDay dayWithinYear leap =
     (if dayWithinYear < 31 then 0
      else if dayWithinYear < 59 + leap then 1
      else if dayWithinYear < 90 + leap then 2
      else if dayWithinYear < 120 + leap then 3
      else if dayWithinYear < 151 + leap then 4
      else if dayWithinYear < 181 + leap then 5
      else if dayWithinYear < 212 + leap then 6
      else if dayWithinYear < 243 + leap then 7
      else if dayWithinYear < 273 + leap then 8
      else if dayWithinYear < 304 + leap then 9
      else if dayWithinYear < 334 + leap then 10
      else 11)"

definition DateFromDay :: "int \<Rightarrow> int \<Rightarrow> int" where
  "DateFromDay dayWithinYear leap =
     (if dayWithinYear < 31 then dayWithinYear + 1
      else if dayWithinYear < 59 + leap then dayWithinYear - 30
      else if dayWithinYear < 90 + leap then dayWithinYear - 58 - leap
      else if dayWithinYear < 120 + leap then dayWithinYear - 89 - leap
      else if dayWithinYear < 151 + leap then dayWithinYear - 119 - leap
      else if dayWithinYear < 181 + leap then dayWithinYear - 150 - leap
      else if dayWithinYear < 212 + leap then dayWithinYear - 180 - leap
      else if dayWithinYear < 243 + leap then dayWithinYear - 211 - leap
      else if dayWithinYear < 273 + leap then dayWithinYear - 242 - leap
      else if dayWithinYear < 304 + leap then dayWithinYear - 272 - leap
      else if dayWithinYear < 334 + leap then dayWithinYear - 303 - leap
      else dayWithinYear - 333 - leap)"

definition iso_year :: "int \<Rightarrow> jsstring" where
  "iso_year y =
     (if 0 \<le> y \<and> y \<le> 9999 then pad 4 (nat y)
      else (if y < 0 then 45 else 43) # pad 6 (nat \<bar>y\<bar>))"

definition iso_date :: "int \<Rightarrow> jsstring" where
  "iso_date day =
     iso_year (YearFromDay day) @ ascii ''-'' @
     pad 2 (nat (MonthFromDay (day - DayFromYear (YearFromDay day))
                   (InLeapYear (YearFromDay day)) + 1)) @ ascii ''-'' @
     pad 2 (nat (DateFromDay (day - DayFromYear (YearFromDay day))
                   (InLeapYear (YearFromDay day))))"

definition toISOString :: "int \<Rightarrow> jsstring" where
  "toISOString t =
     (let ms_of_day = nat (t mod 86400000)
      in iso_date (t div 86400000) @ ascii ''T'' @ pad 2 (ms_of_day div 3600000) @
         ascii '':'' @ pad 2 (ms_of_day div 60000 mod 60) @
         ascii '':'' @ pad 2 (ms_of_day div 1000 mod 60) @
         ascii ''.'' @ pad 3 (ms_of_day mod 1000) @ ascii ''Z'')"



text \<open>Line 66: \<^verbatim>\<open>departureDate.toISOString().slice(0, 13)\<close>, for a valid date.\<close>

definition departureIsoKey :: "int \<Rightarrow> jsstring" where
  "departureIsoKey t = take 13 (toISOString t)"








section \<open>Cache layer\<close>

text \<open>
  The table \<^verbatim>\<open>route_cache\<close> (lines 29-36) is the list of its rows in the order of their
  \<^verbatim>\<open>id\<close>, which is the order of insertion. The column \<^verbatim>\<open>data\<close> holds the result as
  JSON text; the model keeps the result itself, of any type \<open>'p\<close>. A database is
  \<open>None\<close> when a query on it fails with an error.
\<close>

record 'p cache_row =
  origin_text :: jsstring
  dest_text :: jsstring
  trip_date :: jsstring
  data :: 'p
  created_at :: int

type_synonym 'p database = "'p cache_row list option"

text \<open>The \<^verbatim>\<open>WHERE\<close> clause shared by the queries of all versions of the service.\<close>

definition key_matches :: "jsstring \<Rightarrow> jsstring \<Rightarrow> jsstring \<Rightarrow> 'p cache_row \<Rightarrow> bool" where
  "key_matches origin dest dateKey row \<longleftrightarrow>
     origin_text row = origin \<and> dest_text row = dest \<and> trip_date row = dateKey"

text \<open>
  \<^verbatim>\<open>_checkCache\<close> of \<^verbatim>\<open>src/server.js\<close> (lines 281-289):
  \<^verbatim>\<open>SELECT data FROM route_cache WHERE origin_text = ? AND dest_text = ? AND trip_date = ?\<close>,
  of which \<^verbatim>\<open>db.get\<close> hands over the first row, and the callback resolves to the row's
  data when there is no error and a row, to \<^verbatim>\<open>null\<close> otherwise. The query has no
  \<^verbatim>\<open>ORDER BY\<close>: SQLite scans the table in the order of \<^verbatim>\<open>id\<close>. The function reads
  neither the clock nor \<^verbatim>\<open>CACHE_TTL\<close>.
\<close>

definition checkCache :: "'p database \<Rightarrow> jsstring \<Rightarrow> jsstring \<Rightarrow> jsstring \<Rightarrow> 'p option" where
  "checkCache db origin dest dateKey =
     (case db of
        None \<Rightarrow> None
      | Some rows \<Rightarrow>
          (case filter (key_matches origin dest dateKey) rows of
             [] \<Rightarrow> None
           | row # _ \<Rightarrow> Some (data row)))"

text \<open>
  \<^verbatim>\<open>_saveToCache\<close> (lines 291-294): one \<^verbatim>\<open>INSERT\<close> with \<^verbatim>\<open>Date.now()\<close> as
  \<^verbatim>\<open>created_at\<close>; its outcome is not looked at.
\<close>

definition saveToCache ::
  "'p database \<Rightarrow> jsstring \<Rightarrow> jsstring \<Rightarrow> jsstring \<Rightarrow> 'p \<Rightarrow> int \<Rightarrow> 'p database" where
  "saveToCache db origin dest dateKey result now =
     map_option (\<lambda>rows. rows @ [\<lparr>origin_text = origin, dest_text = dest, trip_date = dateKey,
                                  data = result, created_at = now\<rparr>]) db"

text \<open>
  \<^verbatim>\<open>_checkCache\<close> of the earlier version \<^verbatim>\<open>src/unnamed/part_000\<close> (lines 73-83): the
  same \<^verbatim>\<open>WHERE\<close> clause with \<^verbatim>\<open>ORDER BY created_at DESC LIMIT 1\<close>, and the test
  \<^verbatim>\<open>Date.now() - row.created_at < this.CACHE_TTL\<close> in the callback. Among rows of
  equal \<^verbatim>\<open>created_at\<close> the one SQLite puts first is not determined by the query;
  \<open>latest_row\<close> takes the one inserted first.
\<close>

fun latest_row :: "'p cache_row list \<Rightarrow> 'p cache_row option" where
  "latest_row [] = None"
| "latest_row (row # rows) =
     (case latest_row rows of
        None \<Rightarrow> Some row
      | Some later \<Rightarrow> if created_at row < created_at later then Some later else Some row)"

definition checkCache_part_000 ::
  "int \<Rightarrow> 'p database \<Rightarrow> jsstring \<Rightarrow> jsstring \<Rightarrow> jsstring \<Rightarrow> 'p option" where
  "checkCache_part_000 now db origin dest dateKey =
     (case db of
        None \<Rightarrow> None
      | Some rows \<Rightarrow>
          (case latest_row (filter (key_matches origin dest dateKey) rows) of
             None \<Rightarrow> None
           | Some row \<Rightarrow> if now - created_at row < CACHE_TTL then Some (data row) else None))"

section \<open>Example inputs\<close>

text \<open>
  Concrete routes, credentials and collaborators on which the theorems below are
  instantiated: a three-point route from Rio de Janeiro to S\<^verbatim>\<open>a\<close>o Paulo of six hours
  and 430 km, a network in which only GraphHopper and Mapbox answer, and one in which no
  provider does.
\<close>

definition example_route :: raw_route where
  "example_route =
     \<lparr>raw_duration = Some 21600, raw_distance = Some 430000,
      raw_geometry = Some (Some [(- 43.2, - 22.9), (- 44.9, - 23.2), (- 46.6, - 23.5)])\<rparr>"

definition only_graphhopper :: "(real \<times> real) http_client" where
  "only_graphhopper p key start end' =
     (case p of OSRM \<Rightarrow> Rejected
      | GraphHopper \<Rightarrow> Response (Some (example_route\<lparr>raw_duration := Some 21600000\<rparr>))
      | Mapbox \<Rightarrow> Response (Some example_route))"

definition all_down :: "(real \<times> real) http_client" where
  "all_down p key start end' = (case p of OSRM \<Rightarrow> Response None | _ \<Rightarrow> Rejected)"

definition both_keys :: config where
  "both_keys = \<lparr>GRAPHHOPPER_KEY = Some (ascii ''gh-key''), MAPBOX_TOKEN = Some (ascii ''mb-token'')\<rparr>"

definition no_keys :: config where
  "no_keys = \<lparr>GRAPHHOPPER_KEY = None, MAPBOX_TOKEN = Some []\<rparr>"

text \<open>
  A route of 21600 s and 430000 m over the three-point path, the route from a place to
  itself (duration and distance zero), a route whose duration of 1800.00048828125 s is
  not a whole number of milliseconds, a weather service that reports 25 degrees and code
  0 everywhere, and a geocoder that names every point S\<^verbatim>\<open>a\<close>o Paulo, SP. The departure
  used with them, 1717239600000, is 2024-06-01T08:00:00 at UTC-3.
\<close>

definition example_path :: "point list" where
  "example_path = [(- 43.2, - 22.9), (- 44.9, - 23.2), (- 46.6, - 23.5)]"

definition example_routeData :: routeData where
  "example_routeData =
     \<lparr>duration = Some 21600, distance = Some 430000, path = Some example_path,
      provider = ascii ''OSRM''\<rparr>"

definition zero_routeData :: routeData where
  "zero_routeData =
     \<lparr>duration = Some 0, distance = Some 0,
      path = Some [(- 46.6, - 23.5), (- 46.6, - 23.5)], provider = ascii ''OSRM''\<rparr>"


definition example_weather :: weather_client where
  "example_weather lat' lng' date = Some \<lparr>reading_temp = Temp 25, reading_code = 0\<rparr>"

definition example_geocoder :: geocoder where
  "example_geocoder lat' lng' = Some (ascii ''S'' @ [0x00E3] @ ascii ''o Paulo, SP'')"


text \<open>
  A cache key, a cache with one entry stored under it at 2024-06-01T11:00:00Z, and the
  same cache after a second entry was stored under the key one hour and one second later.
\<close>

definition example_key :: "jsstring \<times> jsstring \<times> jsstring" where
  "example_key =
     (ascii ''rio de janeiro'', ascii ''s'' @ [0x00E3] @ ascii ''o paulo'', ascii ''2024-06-01T11'')"

definition expired_cache :: "jsstring database" where
  "expired_cache =
     saveToCache (Some []) (fst example_key) (fst (snd example_key)) (snd (snd example_key))
       (ascii ''first forecast'') 1717239600000"

definition two_entry_cache :: "jsstring database" where
  "two_entry_cache =
     saveToCache expired_cache (fst example_key) (fst (snd example_key)) (snd (snd example_key))
       (ascii ''second forecast'') 1717243201000"

section \<open>Properties of the weather code translator\<close>

lemma digits_value_snoc:
  "digits_value (ds @ [d]) = 10 * digits_value ds + (d - 48)"
  by (simp add: digits_value_def)

lemma digits_value_digits_of: "digits_value (digits_of n) = n"
proof (induction n rule: digits_of.induct)
  case (1 n)
  show ?case
  proof (cases "n < 10")
    case True
    then show ?thesis by (subst digits_of.simps) (simp add: digits_value_def)
  next
    case False
    with "1" have "digits_value (digits_of (n div 10)) = n div 10" by simp
    with False show ?thesis
      by (subst digits_of.simps) (simp add: digits_value_snoc)
  qed
qed

lemma digits_of_nonempty: "digits_of n \<noteq> []"
  by (subst digits_of.simps) simp

lemma hd_digits_of_ge: "48 \<le> hd (digits_of n)"
proof (induction n rule: digits_of.induct)
  case (1 n)
  show ?case
  proof (cases "n < 10")
    case True
    then show ?thesis by (subst digits_of.simps) simp
  next
    case False
    with "1" have "48 \<le> hd (digits_of (n div 10))" by simp
    with False show ?thesis
      by (subst digits_of.simps) (simp add: digits_of_nonempty)
  qed
qed

lemma numeral_value_Number_toString: "numeral_value (Number_toString n) = n"
proof (cases "n < 0")
  case True
  then show ?thesis
    by (simp add: numeral_value_def Number_toString_def digits_value_digits_of)
next
  case False
  obtain c cs where eq: "digits_of (nat n) = c # cs"
    using digits_of_nonempty [of "nat n"] by (cases "digits_of (nat n)") auto
  have "48 \<le> c" using hd_digits_of_ge [of "nat n"] eq by simp
  then have "c \<noteq> 45" by simp
  moreover have "digits_value (c # cs) = nat n"
    using digits_value_digits_of [of "nat n"] eq by simp
  ultimately show ?thesis
    using False eq by (simp add: numeral_value_def Number_toString_def)
qed

lemma known_codes_table: "known_codes = map fst wmo_table"
  by (simp add: known_codes_def wmo_table_def)

lemma wmo_labels_nonempty: "map_of wmo_table code = Some label \<Longrightarrow> label \<noteq> []"
  by (auto simp: wmo_table_def ascii_def split: if_splits)

lemma translateWMO_known:
  assumes "code \<in> set known_codes"
  shows "map_of wmo_table code = Some (translateWMO code)"
proof -
  from assms have "code \<in> fst ` set wmo_table"
    by (simp add: known_codes_table)
  then obtain label where l: "map_of wmo_table code = Some label"
    by (cases "map_of wmo_table code") (auto simp: map_of_eq_None_iff)
  with wmo_labels_nonempty [OF l] show ?thesis
    by (simp add: translateWMO_def)
qed

lemma translateWMO_unknown:
  assumes "code \<notin> set known_codes"
  shows "translateWMO code = generic_label code"
proof -
  from assms have "map_of wmo_table code = None"
    by (simp add: known_codes_table map_of_eq_None_iff)
  then show ?thesis by (simp add: translateWMO_def)
qed

lemma digits_of_range: "\<forall>d \<in> set (digits_of n). 48 \<le> d \<and> d \<le> 57"
proof (induction n rule: digits_of.induct)
  case (1 n)
  show ?case
  proof (cases "n < 10")
    case True
    then show ?thesis by (subst digits_of.simps) simp
  next
    case False
    with "1" have ih: "\<forall>d \<in> set (digits_of (n div 10)). 48 \<le> d \<and> d \<le> 57" by simp
    have "n mod 10 < 10" by simp
    then have "48 + n mod 10 \<le> 57" by linarith
    with False ih show ?thesis by (subst digits_of.simps) simp
  qed
qed

lemma digits_of_leading: "hd (digits_of n) = 48 \<Longrightarrow> n = 0"
proof (induction n rule: digits_of.induct)
  case (1 n)
  show ?case
  proof (cases "n < 10")
    case True
    with "1.prems" show ?thesis by (simp add: digits_of.simps [of n])
  next
    case False
    then have "hd (digits_of n) = hd (digits_of (n div 10))"
      by (simp add: digits_of.simps [of n] digits_of_nonempty)
    with "1.prems" "1.IH" [OF False] have "n div 10 = 0" by simp
    with False show ?thesis by simp
  qed
qed

lemma digits_of_0: "digits_of 0 = [48]"
  by (subst digits_of.simps) simp

lemma decimal_numeral_digits_of: "decimal_numeral (digits_of n) n"
proof -
  have "hd (digits_of n) = 48 \<longrightarrow> digits_of n = [48]"
    using digits_of_leading [of n] digits_of_0 by auto
  then show ?thesis
    unfolding decimal_numeral_def
    using digits_of_nonempty [of n] digits_of_range [of n] digits_value_digits_of [of n]
    by blast
qed

lemma digits_value_Cons:
  "digits_value (d # ds) = (d - 48) * 10 ^ length ds + digits_value ds"
proof (induction ds rule: rev_induct)
  case Nil
  then show ?case by (simp add: digits_value_def)
next
  case (snoc x xs)
  have "digits_value (d # xs @ [x]) = 10 * digits_value (d # xs) + (x - 48)"
    using digits_value_snoc [of "d # xs" x] by simp
  with snoc show ?case by (simp add: digits_value_snoc algebra_simps)
qed

lemma digits_value_positive:
  assumes "ds \<noteq> []" and "49 \<le> hd ds"
  shows "0 < digits_value ds"
proof -
  from assms(1) obtain d rest where ds: "ds = d # rest" by (cases ds) auto
  with assms(2) have "0 < d - 48" by simp
  then have "0 < (d - 48) * 10 ^ length rest" by simp
  then show ?thesis unfolding ds digits_value_Cons by simp
qed

lemma decimal_numeral_unique:
  assumes "decimal_numeral ds n"
  shows "ds = digits_of n"
  using assms
proof (induction ds arbitrary: n rule: rev_induct)
  case Nil
  then show ?case by (simp add: decimal_numeral_def)
next
  case (snoc d xs)
  from snoc.prems have rng: "\<forall>x \<in> set xs. 48 \<le> x \<and> x \<le> 57" and d: "48 \<le> d" "d \<le> 57"
    and lead: "hd (xs @ [d]) = 48 \<longrightarrow> xs @ [d] = [48]"
    and val: "digits_value (xs @ [d]) = n"
    by (simp_all add: decimal_numeral_def)
  show ?case
  proof (cases "xs = []")
    case True
    with val d have "n = d - 48" by (simp add: digits_value_def)
    with d have "n < 10" "48 + n = d" by simp_all
    with True show ?thesis by (simp add: digits_of.simps [of n])
  next
    case False
    with lead have h: "hd xs \<noteq> 48" by simp
    from False rng have "48 \<le> hd xs" by (cases xs) simp_all
    with h have h49: "49 \<le> hd xs" by simp
    have dx: "decimal_numeral xs (digits_value xs)"
      using False rng h by (simp add: decimal_numeral_def)
    then have xs: "xs = digits_of (digits_value xs)" by (rule snoc.IH)
    have pos: "0 < digits_value xs" by (rule digits_value_positive [OF False h49])
    from val have n: "n = 10 * digits_value xs + (d - 48)" by (simp add: digits_value_snoc)
    from d have e: "d - 48 < 10" by simp
    from n pos have "\<not> n < 10" by simp
    moreover from n e have "n div 10 = digits_value xs" "n mod 10 = d - 48" by simp_all
    ultimately have "digits_of n = digits_of (digits_value xs) @ [48 + (d - 48)]"
      by (simp add: digits_of.simps [of n])
    with xs d show ?thesis by simp
  qed
qed

lemma digits_of_1: "digits_of (Suc 0) = [49]"
  by (subst digits_of.simps) simp

lemma digits_of_numeral:
  "digits_of (numeral k) =
     (if numeral k < (10::nat) then [48 + numeral k]
      else digits_of (numeral k div 10) @ [48 + numeral k mod 10])"
  by (subst digits_of.simps) simp

lemmas digits_of_eval = digits_of_0 digits_of_1 digits_of_numeral

text \<open>
  Claim C8. The translator is total on the integers: a code of the known set
  (0, 1, 2, 3, 45, 48, 51, 53, 55, 61, 63, 65, 80, 81, 95, 96) maps to the label the table
  gives it, and any other code \<open>N\<close> maps to the generic label \<open>Clima (N)\<close>, where
  \<open>N\<close> is printed as a minus sign for a negative code followed by the decimal numeral
  of its magnitude, the only string that is one. The function returns a label on every
  integer; no branch raises. The generic label is stated for the codes of magnitude at
  most \<open>2\<^sup>5\<^sup>3\<close>, the integers that JavaScript prints with all their digits.
\<close>

theorem translateWMO_total:
  "(code \<in> set known_codes \<longrightarrow>
      map_of wmo_table code = Some (translateWMO code) \<and> translateWMO code \<noteq> []) \<and>
   map translateWMO known_codes = map snd wmo_table \<and>
   (code \<notin> set known_codes \<and> \<bar>code\<bar> \<le> 2 ^ 53 \<longrightarrow>
      translateWMO code = ascii ''Clima ('' @ Number_toString code @ ascii '')'' \<and>
      Number_toString code = (if code < 0 then [45] else []) @ digits_of (nat \<bar>code\<bar>) \<and>
      decimal_numeral (digits_of (nat \<bar>code\<bar>)) (nat \<bar>code\<bar>) \<and>
      (\<forall>ds. decimal_numeral ds (nat \<bar>code\<bar>) \<longrightarrow> ds = digits_of (nat \<bar>code\<bar>)) \<and>
      numeral_value (Number_toString code) = code)"
proof (intro conjI impI allI)
  assume k: "code \<in> set known_codes"
  show "map_of wmo_table code = Some (translateWMO code)"
    by (rule translateWMO_known [OF k])
  then show "translateWMO code \<noteq> []"
    by (rule wmo_labels_nonempty)
next
  show "map translateWMO known_codes = map snd wmo_table"
    by (simp add: known_codes_def translateWMO_def wmo_table_def ascii_def)
next
  assume u: "code \<notin> set known_codes \<and> \<bar>code\<bar> \<le> 2 ^ 53"
  then show "translateWMO code = ascii ''Clima ('' @ Number_toString code @ ascii '')''"
    by (simp add: translateWMO_unknown generic_label_def)
  show "Number_toString code = (if code < 0 then [45] else []) @ digits_of (nat \<bar>code\<bar>)"
    by (simp add: Number_toString_def)
  show "decimal_numeral (digits_of (nat \<bar>code\<bar>)) (nat \<bar>code\<bar>)"
    by (rule decimal_numeral_digits_of)
  show "numeral_value (Number_toString code) = code"
    by (rule numeral_value_Number_toString)
next
  fix ds
  assume "decimal_numeral ds (nat \<bar>code\<bar>)"
  then show "ds = digits_of (nat \<bar>code\<bar>)" by (rule decimal_numeral_unique)
qed

theorem translateWMO_total_witness:
  "translateWMO 95 = ascii ''Tempestade '' @ [0x26A1] \<and>
   translateWMO 4 = ascii ''Clima (4)'' \<and>
   translateWMO 100 = ascii ''Clima (100)'' \<and>
   translateWMO (- 12) = ascii ''Clima (-12)'' \<and>
   translateWMO 9007199254740992 = ascii ''Clima (9007199254740992)''"
proof -
  have known: "map_of wmo_table code = Some (translateWMO code)" if "code \<in> set known_codes" for code
    using translateWMO_total [of code] that by blast
  have other: "translateWMO code = ascii ''Clima ('' @ Number_toString code @ ascii '')''"
    if "code \<notin> set known_codes" "\<bar>code\<bar> \<le> 2 ^ 53" for code
    using translateWMO_total [of code] that by blast
  have "translateWMO 95 = ascii ''Tempestade '' @ [0x26A1]"
    using known [of 95] by (simp add: known_codes_def wmo_table_def)
  moreover have "translateWMO 4 = ascii ''Clima (4)''"
    using other [of 4]
    by (simp add: known_codes_def Number_toString_def ascii_def digits_of_eval)
  moreover have "translateWMO 100 = ascii ''Clima (100)''"
    using other [of 100]
    by (simp add: known_codes_def Number_toString_def ascii_def digits_of_eval)
  moreover have "translateWMO (- 12) = ascii ''Clima (-12)''"
    using other [of "- 12"]
    by (simp add: known_codes_def Number_toString_def ascii_def digits_of_eval)
  moreover have "translateWMO 9007199254740992 = ascii ''Clima (9007199254740992)''"
    using other [of 9007199254740992]
    by (simp add: known_codes_def Number_toString_def ascii_def digits_of_eval)
  ultimately show ?thesis by simp
qed

section \<open>Properties of the route resolution cascade\<close>

lemma adapter_provider:
  "adapter cfg axios s e p = Inr r \<Longrightarrow> provider r = provider_name p"
  by (cases p)
     (auto simp: adapter_def provider_name_def getOSRMRoute_def getGraphHopperRoute_def
        getMapboxRoute_def split: http_result.splits option.splits)

lemma cascade_cases:
  "getRouteWithFallback cfg axios s e =
    (if \<not> isl (adapter cfg axios s e OSRM) then ([OSRM], adapter cfg axios s e OSRM)
     else if configured cfg GraphHopper \<and> \<not> isl (adapter cfg axios s e GraphHopper)
       then ([OSRM, GraphHopper], adapter cfg axios s e GraphHopper)
     else if configured cfg Mapbox \<and> \<not> isl (adapter cfg axios s e Mapbox)
       then (OSRM # filter (configured cfg) [GraphHopper] @ [Mapbox], adapter cfg axios s e Mapbox)
     else (filter (configured cfg) [OSRM, GraphHopper, Mapbox], Inl RouteUnavailable))"
  by (auto simp: getRouteWithFallback_def adapter_def configured_def split: sum.splits)

lemma configured_OSRM: "configured cfg OSRM"
  by (simp add: configured_def)

text \<open>
  Claim C4. The cascade invokes the adapters in the order OSRM, GraphHopper, Mapbox and
  returns the first route an adapter yields, invoking none after it: when OSRM fails and
  GraphHopper (configured) succeeds, the result is GraphHopper's route, its provider name
  is \<open>GraphHopper\<close>, and the adapters invoked are OSRM and GraphHopper, not Mapbox. A
  provider whose credential is missing is never invoked.
\<close>

theorem cascade_first_success:
  "(\<forall>r. adapter cfg axios s e OSRM = Inr r \<longrightarrow>
        getRouteWithFallback cfg axios s e = ([OSRM], Inr r) \<and> provider r = ascii ''OSRM'') \<and>
   (\<forall>r. isl (adapter cfg axios s e OSRM) \<and> configured cfg GraphHopper \<and>
        adapter cfg axios s e GraphHopper = Inr r \<longrightarrow>
        getRouteWithFallback cfg axios s e = ([OSRM, GraphHopper], Inr r) \<and>
        provider r = ascii ''GraphHopper'' \<and>
        Mapbox \<notin> set (fst (getRouteWithFallback cfg axios s e))) \<and>
   (\<forall>r. isl (adapter cfg axios s e OSRM) \<and>
        (configured cfg GraphHopper \<longrightarrow> isl (adapter cfg axios s e GraphHopper)) \<and>
        configured cfg Mapbox \<and> adapter cfg axios s e Mapbox = Inr r \<longrightarrow>
        getRouteWithFallback cfg axios s e =
          (OSRM # filter (configured cfg) [GraphHopper] @ [Mapbox], Inr r) \<and>
        provider r = ascii ''Mapbox'') \<and>
   (\<forall>p. \<not> configured cfg p \<longrightarrow> p \<notin> set (fst (getRouteWithFallback cfg axios s e))) \<and>
   fst (getRouteWithFallback cfg axios s e) \<in>
     {[OSRM], [OSRM, GraphHopper], [OSRM, Mapbox], [OSRM, GraphHopper, Mapbox]}"
proof (intro conjI allI impI)
  fix r assume "adapter cfg axios s e OSRM = Inr r"
  then show "getRouteWithFallback cfg axios s e = ([OSRM], Inr r)"
    and "provider r = ascii ''OSRM''"
    using adapter_provider [of cfg axios s e OSRM r]
    by (simp_all add: cascade_cases provider_name_def)
next
  fix r
  assume a: "isl (adapter cfg axios s e OSRM) \<and> configured cfg GraphHopper \<and>
        adapter cfg axios s e GraphHopper = Inr r"
  then show g: "getRouteWithFallback cfg axios s e = ([OSRM, GraphHopper], Inr r)"
    by (simp add: cascade_cases)
  from a show "provider r = ascii ''GraphHopper''"
    using adapter_provider [of cfg axios s e GraphHopper r] by (simp add: provider_name_def)
  from g show "Mapbox \<notin> set (fst (getRouteWithFallback cfg axios s e))"
    by simp
next
  fix r
  assume a: "isl (adapter cfg axios s e OSRM) \<and>
        (configured cfg GraphHopper \<longrightarrow> isl (adapter cfg axios s e GraphHopper)) \<and>
        configured cfg Mapbox \<and> adapter cfg axios s e Mapbox = Inr r"
  then show "getRouteWithFallback cfg axios s e =
          (OSRM # filter (configured cfg) [GraphHopper] @ [Mapbox], Inr r)"
    by (simp add: cascade_cases)
  from a show "provider r = ascii ''Mapbox''"
    using adapter_provider [of cfg axios s e Mapbox r] by (simp add: provider_name_def)
next
  fix p assume "\<not> configured cfg p"
  then show "p \<notin> set (fst (getRouteWithFallback cfg axios s e))"
    by (cases p) (auto simp: cascade_cases configured_OSRM)
next
  show "fst (getRouteWithFallback cfg axios s e) \<in>
     {[OSRM], [OSRM, GraphHopper], [OSRM, Mapbox], [OSRM, GraphHopper, Mapbox]}"
    by (simp add: cascade_cases configured_OSRM)
qed

theorem cascade_first_success_witness:
  "getRouteWithFallback both_keys only_graphhopper (- 43.2, - 22.9) (- 46.6, - 23.5) =
     ([OSRM, GraphHopper],
      Inr \<lparr>duration = Some 21600, distance = Some 430000,
           path = Some [(- 43.2, - 22.9), (- 44.9, - 23.2), (- 46.6, - 23.5)],
           provider = ascii ''GraphHopper''\<rparr>) \<and>
   getRouteWithFallback no_keys only_graphhopper (- 43.2, - 22.9) (- 46.6, - 23.5) =
     ([OSRM], Inl RouteUnavailable)"
  using cascade_first_success [of both_keys only_graphhopper "(- 43.2, - 22.9)" "(- 46.6, - 23.5)"]
    cascade_first_success [of no_keys only_graphhopper "(- 43.2, - 22.9)" "(- 46.6, - 23.5)"]
  by (simp add: getRouteWithFallback_def getOSRMRoute_def getGraphHopperRoute_def
      getMapboxRoute_def both_keys_def no_keys_def only_graphhopper_def example_route_def
      falsy_def credential_def ascii_def)

text \<open>
  Claim C5. The cascade ends in the error \<open>RouteUnavailable\<close> exactly when every
  configured provider's adapter fails; the error of a single adapter never leaves the
  cascade, whose only error is \<open>RouteUnavailable\<close>.
\<close>

theorem cascade_fails_iff:
  "(snd (getRouteWithFallback cfg axios s e) = Inl RouteUnavailable \<longleftrightarrow>
      (\<forall>p. configured cfg p \<longrightarrow> isl (adapter cfg axios s e p))) \<and>
   (\<forall>err. snd (getRouteWithFallback cfg axios s e) = Inl err \<longrightarrow> err = RouteUnavailable)"
proof -
  have all: "(\<forall>p. configured cfg p \<longrightarrow> isl (adapter cfg axios s e p)) \<longleftrightarrow>
      isl (adapter cfg axios s e OSRM) \<and>
      (configured cfg GraphHopper \<longrightarrow> isl (adapter cfg axios s e GraphHopper)) \<and>
      (configured cfg Mapbox \<longrightarrow> isl (adapter cfg axios s e Mapbox))"
    (is "?L \<longleftrightarrow> ?R")
  proof
    assume ?L then show ?R by (simp add: configured_OSRM)
  next
    assume r: ?R
    show ?L
    proof (intro allI impI)
      fix p assume "configured cfg p"
      with r show "isl (adapter cfg axios s e p)" by (cases p) simp_all
    qed
  qed
  have not_left: "\<not> isl x \<Longrightarrow> x \<noteq> Inl y" for x :: "route_error + routeData" and y
    by (cases x) simp_all
  have "snd (getRouteWithFallback cfg axios s e) = Inl RouteUnavailable \<longleftrightarrow>
      isl (adapter cfg axios s e OSRM) \<and>
      (configured cfg GraphHopper \<longrightarrow> isl (adapter cfg axios s e GraphHopper)) \<and>
      (configured cfg Mapbox \<longrightarrow> isl (adapter cfg axios s e Mapbox))"
    by (auto simp: cascade_cases not_left)
  moreover have "\<forall>err. snd (getRouteWithFallback cfg axios s e) = Inl err \<longrightarrow> err = RouteUnavailable"
    by (auto simp: cascade_cases not_left)
  ultimately show ?thesis using all by simp
qed

theorem cascade_fails_iff_witness:
  "snd (getRouteWithFallback both_keys all_down (- 43.2, - 22.9) (- 46.6, - 23.5)) =
     Inl RouteUnavailable \<and>
   fst (getRouteWithFallback both_keys all_down (- 43.2, - 22.9) (- 46.6, - 23.5)) =
     [OSRM, GraphHopper, Mapbox] \<and>
   snd (getRouteWithFallback no_keys only_graphhopper (- 43.2, - 22.9) (- 46.6, - 23.5)) =
     Inl RouteUnavailable \<and>
   snd (getRouteWithFallback both_keys only_graphhopper (- 43.2, - 22.9) (- 46.6, - 23.5)) \<noteq>
     Inl RouteUnavailable"
  using cascade_fails_iff [of both_keys all_down "(- 43.2, - 22.9)" "(- 46.6, - 23.5)"]
    cascade_fails_iff [of no_keys only_graphhopper "(- 43.2, - 22.9)" "(- 46.6, - 23.5)"]
    cascade_fails_iff [of both_keys only_graphhopper "(- 43.2, - 22.9)" "(- 46.6, - 23.5)"]
  by (simp add: getRouteWithFallback_def getOSRMRoute_def getGraphHopperRoute_def
      getMapboxRoute_def both_keys_def no_keys_def only_graphhopper_def all_down_def
      example_route_def falsy_def credential_def ascii_def)

section \<open>Properties of the checkpoint interpolator\<close>

lemma pathIndex_range:
  assumes "0 < len"
  shows "0 \<le> pathIndex progress len \<and> pathIndex progress len < int len"
  using assms by (simp add: pathIndex_def Let_def)

lemma at_index_pathIndex:
  assumes "pathPoints \<noteq> []"
  shows "at_index pathPoints (pathIndex progress (length pathPoints)) =
           Some (pathPoints ! nat (pathIndex progress (length pathPoints)))"
  using pathIndex_range [of "length pathPoints" progress] assms
  by (simp add: at_index_def)

lemma at_index_mem: "at_index xs i = Some x \<Longrightarrow> x \<in> set xs"
  by (auto simp: at_index_def split: if_splits)

lemma make_checkpoint_Some:
  assumes "pathPoints \<noteq> []"
  shows "\<exists>cp. make_checkpoint gw gc dep D totalDistance pathPoints t = Some cp"
  using at_index_pathIndex [OF assms]
  by (simp add: make_checkpoint_def Let_def split: prod.splits)

lemma make_checkpoint_fields:
  assumes "make_checkpoint gw gc dep D totalDistance pathPoints t = Some cp"
  shows "formattedTime cp = new_Date (real_of_int dep + t * 1000)"
    and "distanceFromStart cp = \<lfloor>totalDistance * (if D > 0 then t / D else 0) / 1000\<rfloor>"
    and "at_index pathPoints (pathIndex (if D > 0 then t / D else 0) (length pathPoints)) =
           Some (the (lng cp), the (lat cp))"
    and "lng cp \<noteq> None" and "lat cp \<noteq> None"
  using assms
  by (auto simp: make_checkpoint_def Let_def split: option.splits prod.splits)

lemma checkpoint_loop_offsets:
  assumes "pathPoints \<noteq> []"
  shows "checkpoint_loop gw gc dep D totalDistance pathPoints t cps =
           cps @ map (\<lambda>t'. the (make_checkpoint gw gc dep D totalDistance pathPoints t')) (offsets D t)"
  using assms
proof (induction gw gc dep D totalDistance pathPoints t cps rule: checkpoint_loop.induct)
  case (1 gw gc dep D totalDistance pathPoints t cps)
  obtain cp where cp: "make_checkpoint gw gc dep D totalDistance pathPoints t = Some cp"
    using make_checkpoint_Some [OF "1.prems"] by blast
  show ?case
  proof (cases "t \<le> D")
    case False
    then show ?thesis
      by (subst checkpoint_loop.simps, subst offsets.simps) simp
  next
    case le: True
    show ?thesis
    proof (cases "t \<ge> D")
      case True
      with le cp show ?thesis
        by (subst checkpoint_loop.simps, subst offsets.simps) simp
    next
      case False
      with le cp "1.IH" [OF le cp False "1.prems"] show ?thesis
        by (subst checkpoint_loop.simps, subst offsets.simps) simp
    qed
  qed
qed

lemma next_offset_bounds:
  assumes "t < D"
  shows "t < next_offset D t" and "next_offset D t \<le> D"
  using assms by (simp_all add: next_offset_def CHECKPOINT_INTERVAL_def Let_def)

lemma offsets_props:
  assumes "t \<le> D"
  shows "offsets D t \<noteq> [] \<and> hd (offsets D t) = t \<and> last (offsets D t) = D \<and>
         sorted_wrt (<) (offsets D t) \<and> (\<forall>x \<in> set (offsets D t). t \<le> x \<and> x \<le> D)"
  using assms
proof (induction D t rule: offsets.induct)
  case (1 D t)
  show ?case
  proof (cases "t \<ge> D")
    case True
    with "1.prems" have "offsets D t = [t]" by (subst offsets.simps) simp
    with True "1.prems" show ?thesis by simp
  next
    case False
    then have lt: "t < D" by simp
    have eq: "offsets D t = t # offsets D (next_offset D t)"
      using lt by (subst offsets.simps) simp
    have ih: "offsets D (next_offset D t) \<noteq> [] \<and> hd (offsets D (next_offset D t)) = next_offset D t \<and>
         last (offsets D (next_offset D t)) = D \<and>
         sorted_wrt (<) (offsets D (next_offset D t)) \<and>
         (\<forall>x \<in> set (offsets D (next_offset D t)). next_offset D t \<le> x \<and> x \<le> D)"
      using "1.IH" [OF "1.prems" False] next_offset_bounds [OF lt] by simp
    with next_offset_bounds [OF lt] lt show ?thesis
      unfolding eq by fastforce
  qed
qed

lemma offsets_six_hours: "offsets 21600 0 = [0, 3600, 7200, 10800, 14400, 18000, 21600]"
  by (simp add: offsets.simps [of 21600] next_offset_def CHECKPOINT_INTERVAL_def)


lemma the_make_checkpoint:
  assumes "pathPoints \<noteq> []"
  shows "formattedTime (the (make_checkpoint gw gc dep D totalDistance pathPoints t)) =
           new_Date (real_of_int dep + t * 1000)"
    and "distanceFromStart (the (make_checkpoint gw gc dep D totalDistance pathPoints t)) =
           \<lfloor>totalDistance * (if D > 0 then t / D else 0) / 1000\<rfloor>"
    and "\<exists>p \<in> set pathPoints.
           lng (the (make_checkpoint gw gc dep D totalDistance pathPoints t)) = Some (fst p) \<and>
           lat (the (make_checkpoint gw gc dep D totalDistance pathPoints t)) = Some (snd p)"
proof -
  obtain cp where cp: "make_checkpoint gw gc dep D totalDistance pathPoints t = Some cp"
    using make_checkpoint_Some [OF assms] by blast
  note f = make_checkpoint_fields [OF cp]
  from f(1) cp
  show "formattedTime (the (make_checkpoint gw gc dep D totalDistance pathPoints t)) =
           new_Date (real_of_int dep + t * 1000)" by simp
  from f(2) cp
  show "distanceFromStart (the (make_checkpoint gw gc dep D totalDistance pathPoints t)) =
           \<lfloor>totalDistance * (if D > 0 then t / D else 0) / 1000\<rfloor>" by simp
  from at_index_mem [OF f(3)] f(4,5) cp
  show "\<exists>p \<in> set pathPoints.
           lng (the (make_checkpoint gw gc dep D totalDistance pathPoints t)) = Some (fst p) \<and>
           lat (the (make_checkpoint gw gc dep D totalDistance pathPoints t)) = Some (snd p)"
    by force
qed


lemma processCheckpoints_offsets:
  assumes "path r = Some pathPoints" and "pathPoints \<noteq> []"
  shows "processCheckpoints gw gc (Some r) dep =
           map (\<lambda>t. the (make_checkpoint gw gc dep (or_zero (duration r))
                         (or_zero (distance r)) pathPoints t))
             (offsets (or_zero (duration r)) 0)"
  using assms by (simp add: processCheckpoints_def checkpoint_loop_offsets)

lemma processCheckpoints_times:
  assumes "path r = Some pathPoints" and "pathPoints \<noteq> []"
  shows "map formattedTime (processCheckpoints gw gc (Some r) dep) =
           map (\<lambda>t. new_Date (real_of_int dep + t * 1000)) (offsets (or_zero (duration r)) 0)"
  using assms by (simp add: processCheckpoints_offsets the_make_checkpoint o_def)

lemma processCheckpoints_distances:
  assumes "path r = Some pathPoints" and "pathPoints \<noteq> []"
  shows "map distanceFromStart (processCheckpoints gw gc (Some r) dep) =
           map (\<lambda>t. \<lfloor>or_zero (distance r) *
                      (if or_zero (duration r) > 0 then t / or_zero (duration r) else 0) / 1000\<rfloor>)
             (offsets (or_zero (duration r)) 0)"
  using assms by (simp add: processCheckpoints_offsets the_make_checkpoint o_def)

lemma processCheckpoints_nonempty:
  assumes "path r = Some pathPoints" and "pathPoints \<noteq> []" and "0 \<le> or_zero (duration r)"
  shows "processCheckpoints gw gc (Some r) dep \<noteq> []"
  using processCheckpoints_offsets [OF assms(1,2), of gw gc dep]
    offsets_props [OF assms(3)] by simp




lemma js_trunc_of_int: "js_trunc (real_of_int k) = k"
  by (simp add: js_trunc_def)

lemma new_Date_of_int: "\<bar>k\<bar> \<le> 8640000000000000 \<Longrightarrow> new_Date (real_of_int k) = Some k"
proof -
  assume "\<bar>k\<bar> \<le> 8640000000000000"
  then have "\<bar>real_of_int k\<bar> \<le> 8640000000000000" by linarith
  then show ?thesis by (simp add: new_Date_def js_trunc_of_int)
qed

lemma new_Date_plus_int:
  "\<bar>dep + k\<bar> \<le> 8640000000000000 \<Longrightarrow> new_Date (real_of_int dep + real_of_int k) = Some (dep + k)"
  using new_Date_of_int [of "dep + k"] by simp



lemma offsets_zero: "offsets 0 0 = [0]"
  by (simp add: offsets.simps [of 0 0])

lemma offsets_negative: "D < 0 \<Longrightarrow> offsets D 0 = []"
  by (simp add: offsets.simps [of D 0])

lemma make_checkpoint_start:
  assumes "pathPoints \<noteq> []"
  shows "make_checkpoint gw gc dep 0 totalDistance pathPoints 0 =
    Some \<lparr>formattedTime = new_Date (real_of_int dep), lat = Some (snd (hd pathPoints)), lng = Some (fst (hd pathPoints)),
          locationName = snd (enrich gw gc (snd (hd pathPoints)) (fst (hd pathPoints))
                 (new_Date (real_of_int dep))),
          distanceFromStart = 0,
          weather =
            \<lparr>temp = reading_temp (fst (enrich gw gc (snd (hd pathPoints)) (fst (hd pathPoints))
                 (new_Date (real_of_int dep)))),
             condition = translateWMO
               (reading_code (fst (enrich gw gc (snd (hd pathPoints)) (fst (hd pathPoints))
                 (new_Date (real_of_int dep)))))\<rparr>\<rparr>"
proof -
  from assms have "pathIndex 0 (length pathPoints) = 0"
    by (simp add: pathIndex_def)
  moreover from assms have "at_index pathPoints 0 = Some (hd pathPoints)"
    by (cases pathPoints) (simp_all add: at_index_def)
  ultimately show ?thesis
    by (simp add: make_checkpoint_def Let_def split: prod.splits)
qed

lemma processCheckpoints_zero_duration:
  assumes "path r = Some pathPoints" and "pathPoints \<noteq> []"
    and "duration r = None \<or> duration r = Some 0"
  shows "processCheckpoints gw gc (Some r) dep =
    [\<lparr>formattedTime = new_Date (real_of_int dep), lat = Some (snd (hd pathPoints)), lng = Some (fst (hd pathPoints)),
      locationName = snd (enrich gw gc (snd (hd pathPoints)) (fst (hd pathPoints))
                 (new_Date (real_of_int dep))),
      distanceFromStart = 0,
      weather =
        \<lparr>temp = reading_temp (fst (enrich gw gc (snd (hd pathPoints)) (fst (hd pathPoints))
                 (new_Date (real_of_int dep)))),
         condition = translateWMO
           (reading_code (fst (enrich gw gc (snd (hd pathPoints)) (fst (hd pathPoints))
                 (new_Date (real_of_int dep)))))\<rparr>\<rparr>]"
proof -
  from assms(3) have D: "or_zero (duration r) = 0" by (auto simp: or_zero_def)
  show ?thesis
    using processCheckpoints_offsets [OF assms(1,2), of gw gc dep] D
      make_checkpoint_start [OF assms(2), of gw gc dep "or_zero (distance r)"]
    by (simp add: offsets_zero)
qed

text \<open>
  A route of negative duration and non-empty path is outside the cases of claim C2 below: the loop's
  condition fails at once and no checkpoint is returned.
\<close>

lemma processCheckpoints_negative_duration:
  assumes "path r = Some pathPoints" and "pathPoints \<noteq> []"
    and "duration r = Some D" and "D < 0"
  shows "processCheckpoints gw gc (Some r) dep = []"
  using processCheckpoints_offsets [OF assms(1,2), of gw gc dep] assms(3,4)
  by (simp add: or_zero_def offsets_negative)

lemma processCheckpoints_no_path:
  assumes "routeData = None \<or> (\<exists>r. routeData = Some r \<and> (path r = None \<or> path r = Some []))"
  shows "processCheckpoints gw gc routeData dep = [synthetic_checkpoint dep]"
  using assms by (auto simp: processCheckpoints_def)

text \<open>
  Claim C7. For every progress in \<open>[0, 1]\<close> and every non-empty path, the index
  \<open>floor (progress * (length - 1))\<close> lies in \<open>[0, length - 1]\<close>, so neither clamp
  changes it; at progress 1 it is the last index; and the path has a point at it.
\<close>

theorem pathIndex_in_bounds:
  assumes "0 \<le> progress" and "progress \<le> 1" and "pathPoints \<noteq> []"
  shows "0 \<le> pathIndex progress (length pathPoints) \<and>
         pathIndex progress (length pathPoints) \<le> int (length pathPoints) - 1 \<and>
         pathIndex progress (length pathPoints) = \<lfloor>progress * (real (length pathPoints) - 1)\<rfloor> \<and>
         pathIndex 1 (length pathPoints) = int (length pathPoints) - 1 \<and>
         at_index pathPoints (pathIndex progress (length pathPoints)) =
           Some (pathPoints ! nat (pathIndex progress (length pathPoints)))"
proof -
  let ?n = "length pathPoints"
  from assms(3) have n: "1 \<le> ?n" by (cases pathPoints) simp_all
  then have n1: "0 \<le> real ?n - 1" by simp
  have lo: "0 \<le> progress * (real ?n - 1)"
    using assms(1) n1 by simp
  have hi: "progress * (real ?n - 1) \<le> real ?n - 1"
    using mult_right_mono [OF assms(2) n1] by simp
  have f0: "0 \<le> \<lfloor>progress * (real ?n - 1)\<rfloor>" using lo by simp
  have "\<lfloor>progress * (real ?n - 1)\<rfloor> \<le> \<lfloor>real ?n - 1\<rfloor>" using hi by (rule floor_mono)
  also have "\<lfloor>real ?n - 1\<rfloor> = int ?n - 1" by linarith
  finally have f1: "\<lfloor>progress * (real ?n - 1)\<rfloor> \<le> int ?n - 1" .
  have unclamped: "pathIndex progress ?n = \<lfloor>progress * (real ?n - 1)\<rfloor>"
    using f0 f1 by (simp add: pathIndex_def Let_def)
  have last: "pathIndex 1 ?n = int ?n - 1"
  proof -
    have "\<lfloor>real ?n - 1\<rfloor> = int ?n - 1" by linarith
    then show ?thesis using n by (simp add: pathIndex_def Let_def)
  qed
  show ?thesis
    using unclamped f0 f1 last at_index_pathIndex [OF assms(3), of progress] by simp
qed

theorem pathIndex_in_bounds_witness:
  "pathIndex (1 / 2) (length example_path) = 1 \<and>
   pathIndex 1 (length example_path) = 2 \<and>
   at_index example_path (pathIndex 1 (length example_path)) = Some (- 46.6, - 23.5)"
  using pathIndex_in_bounds [of "1 / 2" example_path] pathIndex_in_bounds [of 1 example_path]
  by (simp add: example_path_def pathIndex_def at_index_def)




text \<open>
  Claim C9. A route of 21600 s and 430000 m over any non-empty path yields seven
  checkpoints, whose dates are those of the departure plus 0, 3600, 7200, 10800, 14400,
  18000 and 21600 s, with the distances 0, 71, 143, 215, 286, 358 and 430 km, which are
  non-decreasing. For a departure whose arrival six hours later is still a valid date
  (as for 2024-06-01T08:00:00) the time values are the departure plus these offsets in
  milliseconds, the first at the departure (08:00) and the last six hours later (14:00).
\<close>

theorem six_hour_route:
  assumes "path r = Some pathPoints" and "pathPoints \<noteq> []"
    and "duration r = Some 21600" and "distance r = Some 430000"
  shows "length (processCheckpoints gw gc (Some r) dep) = 7 \<and>
         map formattedTime (processCheckpoints gw gc (Some r) dep) =
           map (\<lambda>t. new_Date (real_of_int dep + t * 1000))
             [0, 3600, 7200, 10800, 14400, 18000, 21600] \<and>
         map distanceFromStart (processCheckpoints gw gc (Some r) dep) =
           [0, 71, 143, 215, 286, 358, 430] \<and>
         sorted (map distanceFromStart (processCheckpoints gw gc (Some r) dep)) \<and>
         (\<bar>dep\<bar> \<le> 8640000000000000 \<and> \<bar>dep + 21600000\<bar> \<le> 8640000000000000 \<longrightarrow>
            map formattedTime (processCheckpoints gw gc (Some r) dep) =
              map (\<lambda>t. Some (dep + t * 1000)) [0, 3600, 7200, 10800, 14400, 18000, 21600] \<and>
            formattedTime (hd (processCheckpoints gw gc (Some r) dep)) = Some dep \<and>
            formattedTime (last (processCheckpoints gw gc (Some r) dep)) =
              Some (dep + 6 * 3600 * 1000))"
proof -
  let ?cps = "processCheckpoints gw gc (Some r) dep"
  have D: "or_zero (duration r) = 21600" and d: "or_zero (distance r) = 430000"
    using assms(3,4) by (simp_all add: or_zero_def)
  have times: "map formattedTime ?cps =
      map (\<lambda>t. new_Date (real_of_int dep + t * 1000)) [0, 3600, 7200, 10800, 14400, 18000, 21600]"
    using processCheckpoints_times [OF assms(1,2), of gw gc dep] D offsets_six_hours by simp
  have dists: "map distanceFromStart ?cps = [0, 71, 143, 215, 286, 358, 430]"
    using processCheckpoints_distances [OF assms(1,2), of gw gc dep] D d offsets_six_hours
    by simp
  have len: "length ?cps = 7"
    using arg_cong [OF times, of length] by simp
  then have ne: "?cps \<noteq> []" by auto
  have srt: "sorted (map distanceFromStart ?cps)" unfolding dists by simp
  have valid: "map formattedTime ?cps =
              map (\<lambda>t. Some (dep + t * 1000)) [0, 3600, 7200, 10800, 14400, 18000, 21600] \<and>
            formattedTime (hd ?cps) = Some dep \<and>
            formattedTime (last ?cps) = Some (dep + 6 * 3600 * 1000)"
    if range: "\<bar>dep\<bar> \<le> 8640000000000000 \<and> \<bar>dep + 21600000\<bar> \<le> 8640000000000000"
  proof -
    have nd: "new_Date (real_of_int dep + real_of_int k) = Some (dep + k)"
      if "0 \<le> k" "k \<le> 21600000" for k
      using that range by (intro new_Date_plus_int) linarith
    have v: "map formattedTime ?cps =
        map (\<lambda>t. Some (dep + t * 1000)) [0, 3600, 7200, 10800, 14400, 18000, 21600]"
      unfolding times
      using nd [of 0] nd [of 3600000] nd [of 7200000] nd [of 10800000] nd [of 14400000]
        nd [of 18000000] nd [of 21600000]
      by simp
    have "formattedTime (hd ?cps) = hd (map formattedTime ?cps)"
      using ne by (simp add: hd_map)
    then have h: "formattedTime (hd ?cps) = Some dep" unfolding v by simp
    have "formattedTime (last ?cps) = last (map formattedTime ?cps)"
      using ne by (simp add: last_map)
    then have l: "formattedTime (last ?cps) = Some (dep + 6 * 3600 * 1000)" unfolding v by simp
    from v h l show ?thesis by simp
  qed
  from len times dists srt valid show ?thesis by blast
qed

theorem six_hour_route_witness:
  "map formattedTime (processCheckpoints example_weather example_geocoder
      (Some example_routeData) 1717239600000) =
     [Some 1717239600000, Some 1717243200000, Some 1717246800000, Some 1717250400000,
      Some 1717254000000, Some 1717257600000, Some 1717261200000] \<and>
   map distanceFromStart (processCheckpoints example_weather example_geocoder
      (Some example_routeData) 1717239600000) = [0, 71, 143, 215, 286, 358, 430]"
  using six_hour_route [of example_routeData example_path
      example_weather example_geocoder 1717239600000]
  by (simp add: example_routeData_def example_path_def new_Date_def js_trunc_def)

text \<open>
  Claim C10. For a non-empty path, the coordinates of every checkpoint are those of a
  point of the path: the loop picks points and computes none.
\<close>

theorem checkpoint_coordinates_from_path:
  assumes "path r = Some pathPoints" and "pathPoints \<noteq> []"
  shows "\<forall>cp \<in> set (processCheckpoints gw gc (Some r) dep).
           \<exists>p \<in> set pathPoints. lng cp = Some (fst p) \<and> lat cp = Some (snd p)"
  using assms the_make_checkpoint(3) [OF assms(2)]
  by (auto simp: processCheckpoints_offsets)

theorem checkpoint_coordinates_from_path_witness:
  "(\<lambda>cp. (lng cp, lat cp)) ` set (processCheckpoints example_weather example_geocoder
       (Some example_routeData) 1717239600000)
     \<subseteq> (\<lambda>p. (Some (fst p), Some (snd p))) ` set example_path \<and>
   processCheckpoints example_weather example_geocoder (Some example_routeData) 1717239600000 \<noteq> []"
  using checkpoint_coordinates_from_path [of example_routeData example_path
      example_weather example_geocoder 1717239600000]
    processCheckpoints_nonempty [of example_routeData example_path
      example_weather example_geocoder 1717239600000]
  by (auto simp: example_routeData_def example_path_def or_zero_def)

text \<open>
  Claim C2, as the code has it. A missing route, a missing path and an empty path yield
  exactly the synthetic checkpoint. A non-empty path with duration zero (or none) yields
  exactly one checkpoint too, but an ordinary one: at the first point of the path, at the
  departure time (\<open>new_Date\<close> of a valid departure is the departure), at distance 0,
  with the place name and the weather the collaborators give, and so different from the
  synthetic checkpoint. With a non-empty path and a
  duration that is not negative, the sequence returned is never empty.
\<close>

theorem degraded_route_checkpoints:
  "(routeData = None \<or> (\<exists>r. routeData = Some r \<and> (path r = None \<or> path r = Some [])) \<longrightarrow>
      processCheckpoints gw gc routeData dep = [synthetic_checkpoint dep]) \<and>
   (\<forall>r pathPoints.
      routeData = Some r \<and> path r = Some pathPoints \<and> pathPoints \<noteq> [] \<and>
      (duration r = None \<or> duration r = Some 0) \<longrightarrow>
      processCheckpoints gw gc routeData dep =
        [\<lparr>formattedTime = new_Date (real_of_int dep), lat = Some (snd (hd pathPoints)),
          lng = Some (fst (hd pathPoints)),
          locationName = snd (enrich gw gc (snd (hd pathPoints)) (fst (hd pathPoints))
                 (new_Date (real_of_int dep))),
          distanceFromStart = 0,
          weather =
            \<lparr>temp = reading_temp
                 (fst (enrich gw gc (snd (hd pathPoints)) (fst (hd pathPoints))
                 (new_Date (real_of_int dep)))),
             condition = translateWMO (reading_code
                 (fst (enrich gw gc (snd (hd pathPoints)) (fst (hd pathPoints))
                 (new_Date (real_of_int dep)))))\<rparr>\<rparr>] \<and>
      processCheckpoints gw gc routeData dep \<noteq> [synthetic_checkpoint dep]) \<and>
   (\<forall>r pathPoints.
      routeData = Some r \<and> path r = Some pathPoints \<and> pathPoints \<noteq> [] \<and>
      0 \<le> or_zero (duration r) \<longrightarrow>
      processCheckpoints gw gc routeData dep \<noteq> [])"
proof (intro conjI allI impI)
  assume "routeData = None \<or> (\<exists>r. routeData = Some r \<and> (path r = None \<or> path r = Some []))"
  then show "processCheckpoints gw gc routeData dep = [synthetic_checkpoint dep]"
    by (rule processCheckpoints_no_path)
next
  fix r pathPoints
  assume a: "routeData = Some r \<and> path r = Some pathPoints \<and> pathPoints \<noteq> [] \<and>
      (duration r = None \<or> duration r = Some 0)"
  then have z: "processCheckpoints gw gc (Some r) dep =
        [\<lparr>formattedTime = new_Date (real_of_int dep), lat = Some (snd (hd pathPoints)),
          lng = Some (fst (hd pathPoints)),
          locationName = snd (enrich gw gc (snd (hd pathPoints)) (fst (hd pathPoints))
                 (new_Date (real_of_int dep))),
          distanceFromStart = 0,
          weather =
            \<lparr>temp = reading_temp
                 (fst (enrich gw gc (snd (hd pathPoints)) (fst (hd pathPoints))
                 (new_Date (real_of_int dep)))),
             condition = translateWMO (reading_code
                 (fst (enrich gw gc (snd (hd pathPoints)) (fst (hd pathPoints))
                 (new_Date (real_of_int dep)))))\<rparr>\<rparr>]"
    by (intro processCheckpoints_zero_duration) simp_all
  with a show "processCheckpoints gw gc routeData dep =
        [\<lparr>formattedTime = new_Date (real_of_int dep), lat = Some (snd (hd pathPoints)),
          lng = Some (fst (hd pathPoints)),
          locationName = snd (enrich gw gc (snd (hd pathPoints)) (fst (hd pathPoints))
                 (new_Date (real_of_int dep))),
          distanceFromStart = 0,
          weather =
            \<lparr>temp = reading_temp
                 (fst (enrich gw gc (snd (hd pathPoints)) (fst (hd pathPoints))
                 (new_Date (real_of_int dep)))),
             condition = translateWMO (reading_code
                 (fst (enrich gw gc (snd (hd pathPoints)) (fst (hd pathPoints))
                 (new_Date (real_of_int dep)))))\<rparr>\<rparr>]"
    by simp
  from a z show "processCheckpoints gw gc routeData dep \<noteq> [synthetic_checkpoint dep]"
    by (simp add: synthetic_checkpoint_def)
next
  fix r pathPoints
  assume "routeData = Some r \<and> path r = Some pathPoints \<and> pathPoints \<noteq> [] \<and>
      0 \<le> or_zero (duration r)"
  then show "processCheckpoints gw gc routeData dep \<noteq> []"
    using processCheckpoints_nonempty [of r pathPoints gw gc dep] by simp
qed

theorem degraded_route_checkpoints_witness:
  "processCheckpoints example_weather example_geocoder
     (Some (example_routeData\<lparr>path := Some []\<rparr>)) 1717239600000 =
     [synthetic_checkpoint 1717239600000] \<and>
   processCheckpoints example_weather example_geocoder None 1717239600000 =
     [synthetic_checkpoint 1717239600000] \<and>
   processCheckpoints example_weather example_geocoder (Some zero_routeData) 1717239600000 =
     [\<lparr>formattedTime = Some 1717239600000, lat = Some (- 23.5), lng = Some (- 46.6),
       locationName = ascii ''S'' @ [0x00E3] @ ascii ''o Paulo, SP'', distanceFromStart = 0,
       weather = \<lparr>temp = Temp 25, condition = translateWMO 0\<rparr>\<rparr>] \<and>
   processCheckpoints example_weather example_geocoder (Some example_routeData) 1717239600000 \<noteq> []"
  using degraded_route_checkpoints [of "Some (example_routeData\<lparr>path := Some []\<rparr>)"
      example_weather example_geocoder 1717239600000]
    degraded_route_checkpoints [of None example_weather example_geocoder 1717239600000]
    degraded_route_checkpoints [of "Some zero_routeData"
      example_weather example_geocoder 1717239600000]
    degraded_route_checkpoints [of "Some example_routeData"
      example_weather example_geocoder 1717239600000]
  by (simp add: example_routeData_def zero_routeData_def example_path_def or_zero_def
      enrich_def example_weather_def example_geocoder_def new_Date_def js_trunc_def)

text \<open>
  The claim as stated fails for a route of duration zero on a non-empty path: with
  collaborators that answer, the single checkpoint carries their place name and weather,
  not the placeholder's.
\<close>

theorem zero_duration_counterexample:
  "processCheckpoints example_weather example_geocoder (Some zero_routeData) 1717239600000 \<noteq>
     [synthetic_checkpoint 1717239600000] \<and>
   locationName (hd (processCheckpoints example_weather example_geocoder
      (Some zero_routeData) 1717239600000)) = ascii ''S'' @ [0x00E3] @ ascii ''o Paulo, SP'' \<and>
   weather (hd (processCheckpoints example_weather example_geocoder
      (Some zero_routeData) 1717239600000)) =
     \<lparr>temp = Temp 25, condition = ascii ''C'' @ [0x00E9] @ ascii ''u Limpo '' @ [0x2600, 0xFE0F]\<rparr>"
  using processCheckpoints_zero_duration [of zero_routeData
      "[(- 46.6, - 23.5), (- 46.6, - 23.5)]" example_weather example_geocoder 1717239600000]
  by (simp add: zero_routeData_def synthetic_checkpoint_def enrich_def example_weather_def
      example_geocoder_def translateWMO_def wmo_table_def ascii_def new_Date_def js_trunc_def)

section \<open>Properties of the request normalization\<close>

subsection \<open>Calendar\<close>

lemma InLeapYear_range: "0 \<le> InLeapYear y \<and> InLeapYear y \<le> 1"
  by (simp add: InLeapYear_def)

lemma DayFromYear_add:
  "DayFromYear y + 365 * int n \<le> DayFromYear (y + int n) \<and>
   DayFromYear (y + int n) \<le> DayFromYear y + 366 * int n"
proof (induction n)
  case 0
  then show ?case by simp
next
  case (Suc n)
  have "y + int (Suc n) = y + int n + 1" by simp
  then have "DayFromYear (y + int (Suc n)) = DayFromYear (y + int n + 1)"
    by (simp only:)
  also have "\<dots> = DayFromYear (y + int n) + 365 + InLeapYear (y + int n)"
    by (rule DayFromYear_Suc)
  finally show ?case
    using Suc InLeapYear_range [of "y + int n"] by simp
qed

lemma DayFromYear_mono: "y \<le> y' \<Longrightarrow> DayFromYear y \<le> DayFromYear y'"
proof -
  assume "y \<le> y'"
  then have "y' = y + int (nat (y' - y))" by simp
  then show ?thesis using DayFromYear_add [of y "nat (y' - y)"] by simp
qed

lemma DayFromYear_strict: "y < y' \<Longrightarrow> DayFromYear y < DayFromYear y'"
proof -
  assume "y < y'"
  then obtain n where n: "y' = y + int n" "0 < n"
    by (metis zless_iff_Suc_zadd zero_less_Suc)
  from DayFromYear_add [of y n] n(2) have "DayFromYear y < DayFromYear (y + int n)"
    by linarith
  then show ?thesis by (simp only: n(1))
qed

lemma DayFromYear_1970: "DayFromYear 1970 = 0"
  by (simp add: DayFromYear_def)

lemma DayFromYear_start:
  "DayFromYear (1970 + (if 0 \<le> day then day div 366 else day div 365)) \<le> day"
proof (cases "0 \<le> day")
  case True
  then have k: "0 \<le> day div 366" by simp
  have "DayFromYear (1970 + int (nat (day div 366))) \<le> DayFromYear 1970 + 366 * int (nat (day div 366))"
    using DayFromYear_add [of 1970 "nat (day div 366)"] by simp
  with k have "DayFromYear (1970 + day div 366) \<le> 366 * (day div 366)"
    by (simp add: DayFromYear_1970)
  moreover have "366 * (day div 366) \<le> day"
    using mult_div_mod_eq [of 366 day] pos_mod_sign [of 366 day] by linarith
  ultimately show ?thesis using True by simp
next
  case False
  then have k: "day div 365 < 0" by (simp add: div_neg_pos_less0)
  let ?n = "nat (- (day div 365))"
  have y: "1970 + day div 365 + int ?n = 1970" using k by simp
  have "DayFromYear (1970 + day div 365) + 365 * int ?n \<le> DayFromYear (1970 + day div 365 + int ?n)"
    using DayFromYear_add [of "1970 + day div 365" ?n] by simp
  with y k have "DayFromYear (1970 + day div 365) \<le> 365 * (day div 365)"
    by (simp add: DayFromYear_1970)
  moreover have "365 * (day div 365) \<le> day"
    using mult_div_mod_eq [of 365 day] pos_mod_sign [of 365 day] by linarith
  ultimately show ?thesis using False by simp
qed

lemma year_from_bounds:
  "DayFromYear y \<le> day \<Longrightarrow>
     DayFromYear (year_from day y) \<le> day \<and> day < DayFromYear (year_from day y + 1)"
proof (induction day y rule: year_from.induct)
  case (1 day y)
  show ?case
  proof (cases "DayFromYear (y + 1) \<le> day")
    case True
    from "1.IH" [OF True True] True show ?thesis
      by (simp add: year_from.simps [of day y])
  next
    case False
    with "1.prems" show ?thesis
      by (simp add: year_from.simps [of day y])
  qed
qed

lemma YearFromDay_bounds:
  "DayFromYear (YearFromDay day) \<le> day \<and> day < DayFromYear (YearFromDay day + 1)"
  unfolding YearFromDay_def by (rule year_from_bounds [OF DayFromYear_start])

lemma YearFromDay_unique:
  assumes "DayFromYear y \<le> day" and "day < DayFromYear (y + 1)"
  shows "YearFromDay day = y"
proof (rule ccontr)
  assume ne: "YearFromDay day \<noteq> y"
  note b = YearFromDay_bounds [of day]
  show False
  proof (cases "YearFromDay day < y")
    case True
    then have "DayFromYear (YearFromDay day + 1) \<le> DayFromYear y"
      by (intro DayFromYear_mono) simp
    with assms(1) b show False by simp
  next
    case False
    with ne have "DayFromYear (y + 1) \<le> DayFromYear (YearFromDay day)"
      by (intro DayFromYear_mono) simp
    with assms(2) b show False by simp
  qed
qed






subsection \<open>Texts and padded numbers\<close>














lemma length_pad: "width \<le> length (pad width n)"
  by (simp add: pad_def)


lemma length_iso_date: "10 \<le> length (iso_date day)"
proof -
  have "4 \<le> length (iso_year y)" for y
    using length_pad [of 4 "nat y"] length_pad [of 6 "nat \<bar>y\<bar>"]
    by (simp add: iso_year_def)
  from this [of "YearFromDay day"]
    length_pad [of 2 "nat (MonthFromDay (day - DayFromYear (YearFromDay day))
                   (InLeapYear (YearFromDay day)) + 1)"]
    length_pad [of 2 "nat (DateFromDay (day - DayFromYear (YearFromDay day))
                   (InLeapYear (YearFromDay day)))"]
  show ?thesis
    by (simp add: iso_date_def ascii_def)
qed

lemma departureIsoKey_hour:
  "departureIsoKey t =
     take 13 (iso_date ((t div 3600000) div 24) @ ascii ''T'' @ pad 2 (nat ((t div 3600000) mod 24)))"
proof -
  have day: "t div 86400000 = (t div 3600000) div 24"
    by (simp add: div_mult2_eq [symmetric])
  have hour: "nat (t mod 86400000) div 3600000 = nat ((t div 3600000) mod 24)"
  proof -
    have "0 \<le> t mod 86400000" by simp
    then have "int (nat (t mod 86400000) div 3600000) = (t mod 86400000) div 3600000"
      by (simp add: zdiv_int)
    also have "\<dots> = (t div 3600000) mod 24"
      using mod_mult2_eq' [of t 3600000 24] by simp
    finally show ?thesis by linarith
  qed
  let ?x = "iso_date (t div 86400000) @ ascii ''T'' @ pad 2 (nat (t mod 86400000) div 3600000)"
  have len: "13 \<le> length ?x"
    using length_iso_date [of "t div 86400000"]
      length_pad [of 2 "nat (t mod 86400000) div 3600000"]
    by (simp add: ascii_def)
  have "toISOString t = ?x @ (ascii '':'' @ pad 2 (nat (t mod 86400000) div 60000 mod 60) @
         ascii '':'' @ pad 2 (nat (t mod 86400000) div 1000 mod 60) @
         ascii ''.'' @ pad 3 (nat (t mod 86400000) mod 1000) @ ascii ''Z'')"
    by (simp add: toISOString_def Let_def)
  then have "departureIsoKey t = take 13 ?x"
    using len by (simp add: departureIsoKey_def)
  then show ?thesis by (simp only: day hour)
qed









subsection \<open>Hour bucket\<close>








subsection \<open>Request key\<close>





lemma departureIsoKey_next_hour: "departureIsoKey 1717243200000 = ascii ''2024-06-01T12''"
proof -
  have y: "YearFromDay 19875 = 2024"
    by (rule YearFromDay_unique) (simp_all add: DayFromYear_def)
  have i: "iso_date 19875 = ascii ''2024-06-01''"
    by (simp add: iso_date_def y iso_year_def DayFromYear_def InLeapYear_def MonthFromDay_def
        DateFromDay_def pad_def digits_of_eval ascii_def)
  show ?thesis
    by (simp add: departureIsoKey_hour i pad_def digits_of_eval ascii_def)
qed






section \<open>Properties of the cache layer\<close>

lemma latest_row_None: "latest_row rows = None \<longleftrightarrow> rows = []"
  by (cases rows) (auto split: option.splits)

lemma latest_row_newest:
  assumes "latest_row rows = Some row"
  shows "row \<in> set rows \<and> (\<forall>r \<in> set rows. created_at r \<le> created_at row)"
  using assms
proof (induction rows arbitrary: row)
  case Nil
  then show ?case by simp
next
  case (Cons r rows)
  show ?case
  proof (cases "latest_row rows")
    case None
    then have "rows = []" by (simp add: latest_row_None)
    with Cons.prems show ?thesis by simp
  next
    case (Some later)
    from Cons.IH [OF Some] have ih: "later \<in> set rows"
      "\<forall>x \<in> set rows. created_at x \<le> created_at later" by simp_all
    show ?thesis
    proof (cases "created_at r < created_at later")
      case True
      with Some Cons.prems have "row = later" by simp
      with ih True show ?thesis by auto
    next
      case False
      with Some Cons.prems have "row = r" by simp
      with ih False show ?thesis by fastforce
    qed
  qed
qed

text \<open>
  The lookup of \<^verbatim>\<open>src/unnamed/part_000\<close> has the time to live and the recency rule: it
  answers nothing exactly when no row matches the key or the newest matching row is as
  old as \<open>CACHE_TTL\<close> or older, and what it answers is the data of a matching row that
  is younger than \<open>CACHE_TTL\<close> and at least as new as every other matching row.
\<close>

lemma checkCache_part_000_respects_ttl:
  "(checkCache_part_000 now (Some rows) origin dest dateKey = None \<longleftrightarrow>
      (\<forall>r \<in> set rows. \<not> key_matches origin dest dateKey r) \<or>
      (\<exists>row. latest_row (filter (key_matches origin dest dateKey) rows) = Some row \<and>
         now - created_at row \<ge> CACHE_TTL)) \<and>
   (\<forall>result. checkCache_part_000 now (Some rows) origin dest dateKey = Some result \<longrightarrow>
      (\<exists>row \<in> set rows. key_matches origin dest dateKey row \<and> data row = result \<and>
         now - created_at row < CACHE_TTL \<and>
         (\<forall>r \<in> set rows. key_matches origin dest dateKey r \<longrightarrow> created_at r \<le> created_at row)))"
proof (cases "latest_row (filter (key_matches origin dest dateKey) rows)")
  case None
  then have "filter (key_matches origin dest dateKey) rows = []"
    by (simp add: latest_row_None)
  then have "\<forall>r \<in> set rows. \<not> key_matches origin dest dateKey r"
    by (simp add: filter_empty_conv)
  with None show ?thesis by (simp add: checkCache_part_000_def)
next
  case (Some row)
  from latest_row_newest [OF Some]
  have row: "row \<in> set rows" "key_matches origin dest dateKey row"
    and newest: "\<forall>r \<in> set rows. key_matches origin dest dateKey r \<longrightarrow> created_at r \<le> created_at row"
    by auto
  show ?thesis
  proof (cases "now - created_at row < CACHE_TTL")
    case True
    with Some row newest show ?thesis
      by (auto simp: checkCache_part_000_def)
  next
    case False
    with Some row show ?thesis
      by (auto simp: checkCache_part_000_def)
  qed
qed

text \<open>
  The lookup of \<^verbatim>\<open>src/server.js\<close> answers a stored entry whatever its age.
\<close>

lemma checkCache_ignores_age:
  "checkCache (saveToCache (Some []) origin dest dateKey result created) origin dest dateKey =
     Some result"
  by (simp add: checkCache_def saveToCache_def key_matches_def)

text \<open>
  Claim C1, on \<^verbatim>\<open>src/server.js\<close>. The claim asks that an entry created \<open>TTL + 1 s\<close>
  before the lookup be a miss and that the newest of several entries be the one returned.
  The lookup of \<^verbatim>\<open>src/server.js\<close> does neither: it returns the entry stored one hour
  and one second ago, and of two entries under the key it returns the one stored first.
  On the same caches the lookup of \<^verbatim>\<open>src/unnamed/part_000\<close> misses the expired entry
  and returns the second entry.
\<close>

theorem checkCache_serves_expired_entry:
  "checkCache expired_cache (fst example_key) (fst (snd example_key)) (snd (snd example_key)) =
     Some (ascii ''first forecast'') \<and>
   (1717239600000 + CACHE_TTL + 1000) - 1717239600000 \<ge> CACHE_TTL \<and>
   checkCache_part_000 (1717239600000 + CACHE_TTL + 1000) expired_cache
       (fst example_key) (fst (snd example_key)) (snd (snd example_key)) = None \<and>
   checkCache two_entry_cache (fst example_key) (fst (snd example_key)) (snd (snd example_key)) =
     Some (ascii ''first forecast'') \<and>
   checkCache_part_000 (1717243201000 + 1000) two_entry_cache
       (fst example_key) (fst (snd example_key)) (snd (snd example_key)) =
     Some (ascii ''second forecast'')"
  by (simp add: checkCache_def checkCache_part_000_def two_entry_cache_def expired_cache_def
      saveToCache_def key_matches_def example_key_def CACHE_TTL_def)

end
